theory Spec2Isabelle
  imports Main "HOL-Library.Multiset"
begin

section \<open>Strings\<close>

text \<open>
  Python strings are modelled as \<open>string\<close> (lists of 8-bit characters), so the model
  covers ASCII text: \<open>\w\<close> of the \<open>re\<close> module is the class \<open>[a-zA-Z0-9_]\<close>, and
  \<open>str.lower\<close> and \<open>str.upper\<close> change the 26 ASCII letters only.
\<close>

definition lower_letters :: string where
  "lower_letters = ''abcdefghijklmnopqrstuvwxyz''"

definition upper_letters :: string where
  "upper_letters = ''ABCDEFGHIJKLMNOPQRSTUVWXYZ''"

definition digit_chars :: string where
  "digit_chars = ''0123456789''"

definition is_word :: "char \<Rightarrow> bool" where
  "is_word c = (c \<in> set (lower_letters @ upper_letters @ digit_chars @ ''_''))"

definition lower_char :: "char \<Rightarrow> char" where
  "lower_char c = (case map_of (zip upper_letters lower_letters) c of Some d \<Rightarrow> d | None \<Rightarrow> c)"

definition upper_char :: "char \<Rightarrow> char" where
  "upper_char c = (case map_of (zip lower_letters upper_letters) c of Some d \<Rightarrow> d | None \<Rightarrow> c)"

definition lower :: "string \<Rightarrow> string" where
  "lower s = map lower_char s"

definition upper :: "string \<Rightarrow> string" where
  "upper s = map upper_char s"

definition startswith :: "string \<Rightarrow> string \<Rightarrow> bool" where
  "startswith s p = (take (length p) s = p)"

definition endswith :: "string \<Rightarrow> string \<Rightarrow> bool" where
  "endswith s p = (length p \<le> length s \<and> drop (length s - length p) s = p)"

text \<open>Python's \<open>sub in s\<close> on strings.\<close>

fun contains :: "string \<Rightarrow> string \<Rightarrow> bool" where
  "contains sub [] = (sub = [])"
| "contains sub (c # cs) = (startswith (c # cs) sub \<or> contains sub cs)"

section \<open>Parameter extraction and route translation\<close>

text \<open>
  \<open>re.findall(r"\$\w+", string)\<close>: the scan goes left to right; at a \<open>$\<close> followed by at
  least one word character the match is the \<open>$\<close> with the longest run of word characters
  after it, and the scan resumes behind the match; any other character is skipped.
\<close>

function findall_param :: "string \<Rightarrow> string list" where
  "findall_param [] = []"
| "findall_param (c # cs) =
     (if c = CHR ''$'' \<and> takeWhile is_word cs \<noteq> []
      then (c # takeWhile is_word cs) # findall_param (dropWhile is_word cs)
      else findall_param cs)"
  by pat_completeness auto
termination
  by (relation "measure length") (auto simp: length_dropWhile_le less_Suc_eq_le)

text \<open>\<open>extract_params\<close>: \<open>[x[1:] for x in res]\<close>.\<close>

definition extract_params :: "string \<Rightarrow> string list" where
  "extract_params s = map (drop 1) (findall_param s)"

text \<open>\<open>flaskify_url\<close>: \<open>re.sub(r"\$(\w+)", r"<\1>", url)\<close>, the same scan, each match
  replaced by its word in angle brackets.\<close>

function flaskify_url :: "string \<Rightarrow> string" where
  "flaskify_url [] = []"
| "flaskify_url (c # cs) =
     (if c = CHR ''$'' \<and> takeWhile is_word cs \<noteq> []
      then ''<'' @ takeWhile is_word cs @ ''>'' @ flaskify_url (dropWhile is_word cs)
      else c # flaskify_url cs)"
  by pat_completeness auto
termination
  by (relation "measure length") (auto simp: length_dropWhile_le less_Suc_eq_le)

text \<open>
  The contract of the extractor in the spec's words, for comparison with
  \<open>extract_params\<close>: going through the string one character at a time, every \<open>$\<close> that
  is directly followed by a word character marks an identifier, which is the longest run
  of word characters behind that \<open>$\<close>.
\<close>

fun marked_identifiers :: "string \<Rightarrow> string list" where
  "marked_identifiers [] = []"
| "marked_identifiers (c # cs) =
     (if c = CHR ''$'' \<and> cs \<noteq> [] \<and> is_word (hd cs)
      then takeWhile is_word cs # marked_identifiers cs
      else marked_identifiers cs)"

section \<open>Values, rows and the query string\<close>

text \<open>
  A value of a row, of the decoded token or of a bound parameter is \<open>None\<close>, an
  integer or a string; on these three, Python's \<open>==\<close> is equality of the values. Floats,
  booleans and dates are outside the model. A \<open>dict\<close> is an association list in which
  the first binding of a key is the binding of that key.
\<close>

datatype pyval = PNone | PInt int | PStr string

type_synonym row = "(string \<times> pyval) list"

datatype exn = HTTPError nat string | KeyError | TypeError | ValueError | AssertionError

definition dict_get :: "(string \<times> 'v) list \<Rightarrow> string \<Rightarrow> 'v option" where
  "dict_get d k = map_of d k"

text \<open>\<open>d[k]\<close>, which raises \<open>KeyError\<close> on a missing key.\<close>

definition dict_index :: "(string \<times> 'v) list \<Rightarrow> string \<Rightarrow> exn + 'v" where
  "dict_index d k = (case map_of d k of None \<Rightarrow> Inl KeyError | Some v \<Rightarrow> Inr v)"

text \<open>\<open>d[k] = v\<close>.\<close>

definition dict_set :: "(string \<times> 'v) list \<Rightarrow> string \<Rightarrow> 'v \<Rightarrow> (string \<times> 'v) list" where
  "dict_set d k v = (k, v) # filter (\<lambda>p. fst p \<noteq> k) d"

text \<open>\<open>tuple(d[param] for param in params)\<close>: the first missing key raises.\<close>

fun dict_tuple :: "(string \<times> 'v) list \<Rightarrow> string list \<Rightarrow> exn + 'v list" where
  "dict_tuple d [] = Inr []"
| "dict_tuple d (p # ps) =
     (case dict_index d p of
        Inl e \<Rightarrow> Inl e
      | Inr v \<Rightarrow> (case dict_tuple d ps of Inl e \<Rightarrow> Inl e | Inr vs \<Rightarrow> Inr (v # vs)))"

text \<open>
  \<open>request.args\<close> is a multi-dict, given here by the pairs of the query string in their
  order: \<open>args.get(k)\<close> is the first value of \<open>k\<close>, and \<open>args.items()\<close> yields every key
  once, with its first value.
\<close>

type_synonym query_args = "(string \<times> string) list"

definition args_get :: "query_args \<Rightarrow> string \<Rightarrow> string option" where
  "args_get args k = map_of args k"

function args_items :: "query_args \<Rightarrow> (string \<times> string) list" where
  "args_items [] = []"
| "args_items (p # ps) = p # args_items (filter (\<lambda>q. fst q \<noteq> fst p) ps)"
  by pat_completeness auto
termination
  by (relation "measure length") (auto simp: less_Suc_eq_le)

subsection \<open>The built-ins \<open>str\<close> and \<open>int\<close>\<close>

fun digits_of_nat :: "nat \<Rightarrow> string" where
  "digits_of_nat n =
     (if n < 10 then [digit_chars ! n]
      else digits_of_nat (n div 10) @ [digit_chars ! (n mod 10)])"

declare digits_of_nat.simps [simp del]

text \<open>\<open>str(v)\<close>.\<close>

fun py_str :: "pyval \<Rightarrow> string" where
  "py_str PNone = ''None''"
| "py_str (PInt i) = (if i < 0 then ''-'' @ digits_of_nat (nat (- i)) else digits_of_nat (nat i))"
| "py_str (PStr s) = s"

text \<open>
  \<open>str.isspace\<close>, for characters with codes up to 255.
\<close>

definition is_space :: "char \<Rightarrow> bool" where
  "is_space c = (c \<in> set [CHR '' '', CHR 0x09, CHR 0x0A, CHR 0x0B, CHR 0x0C, CHR 0x0D,
                           CHR 0x1C, CHR 0x1D, CHR 0x1E, CHR 0x1F, CHR 0x85, CHR 0xA0])"

text \<open>
  \<open>int(s)\<close> on a string, for characters with codes up to 255. White space around the
  literal is dropped: the white space of C (space, tab, line feed, vertical tab, form feed,
  carriage return) and the code points 0x85 and 0xA0, but not the separators 0x1C to 0x1F.
  Then comes an optional sign and decimal digits, where single underscores may stand
  between digits. \<open>None\<close> is the \<open>ValueError\<close> of any other string, and of a literal with
  more digits than the limit of the interpreter (\<open>sys.get_int_max_str_digits()\<close>: 4300
  by default from Python 3.11 on, and 0 where there is no limit), which is a parameter.
\<close>

definition is_int_space :: "char \<Rightarrow> bool" where
  "is_int_space c = (c \<in> set [CHR '' '', CHR 0x09, CHR 0x0A, CHR 0x0B, CHR 0x0C, CHR 0x0D,
                               CHR 0x85, CHR 0xA0])"

definition strip_int :: "string \<Rightarrow> string" where
  "strip_int s = rev (dropWhile is_int_space (rev (dropWhile is_int_space s)))"

definition digit_value :: "char \<Rightarrow> nat option" where
  "digit_value c = map_of (zip digit_chars [0, 1, 2, 3, 4, 5, 6, 7, 8, 9]) c"

definition count_digits :: "string \<Rightarrow> nat" where
  "count_digits s = length (filter (\<lambda>c. digit_value c \<noteq> None) s)"

text \<open>The digits behind the sign: \<open>after_digit\<close> says whether the character before
  was a digit (an underscore must stand between two digits).\<close>

fun parse_digits :: "nat \<Rightarrow> bool \<Rightarrow> string \<Rightarrow> nat option" where
  "parse_digits acc after_digit [] = (if after_digit then Some acc else None)"
| "parse_digits acc after_digit (c # cs) =
     (if c = CHR ''_'' then (if after_digit then parse_digits acc False cs else None)
      else (case digit_value c of
              None \<Rightarrow> None
            | Some d \<Rightarrow> parse_digits (10 * acc + d) True cs))"

definition py_int :: "nat \<Rightarrow> string \<Rightarrow> int option" where
  "py_int max_str_digits s =
     (case strip_int s of
        [] \<Rightarrow> None
      | c # cs \<Rightarrow>
          (let literal = (if c = CHR ''-'' \<or> c = CHR ''+'' then cs else c # cs)
           in if 0 < max_str_digits \<and> max_str_digits < count_digits literal then None
              else if c = CHR ''-'' then map_option (\<lambda>n. - int n) (parse_digits 0 False literal)
              else map_option int (parse_digits 0 False literal)))"

section \<open>The result shaper\<close>

subsection \<open>Sort keys\<close>

text \<open>
  Modelled from the spec: \<open>Min\<close> of \<open>silence.utils.min_type\<close> (here \<open>MinKey\<close>), which is not among the
  sources. By the spec it is a sentinel minimum: comparing it with any value never fails,
  it is below every value and equal only to itself.
\<close>

datatype sort_key = MinKey | KInt int | KStr string

text \<open>Strings compare by their characters' codes, a proper prefix being smaller.\<close>

fun str_lt :: "string \<Rightarrow> string \<Rightarrow> bool" where
  "str_lt [] [] = False"
| "str_lt [] (y # ys) = True"
| "str_lt (x # xs) [] = False"
| "str_lt (x # xs) (y # ys) =
     ((of_char x :: nat) < of_char y \<or> (x = y \<and> str_lt xs ys))"

text \<open>\<open>a < b\<close> on sort keys; an integer and a string do not compare (\<open>TypeError\<close>).\<close>

fun key_lt :: "sort_key \<Rightarrow> sort_key \<Rightarrow> exn + bool" where
  "key_lt MinKey MinKey = Inr False"
| "key_lt MinKey b = Inr True"
| "key_lt a MinKey = Inr False"
| "key_lt (KInt a) (KInt b) = Inr (a < b)"
| "key_lt (KStr a) (KStr b) = Inr (str_lt a b)"
| "key_lt (KInt a) (KStr b) = Inl TypeError"
| "key_lt (KStr a) (KInt b) = Inl TypeError"

text \<open>\<open>order_key_func\<close>; \<open>sort_param\<close> is \<open>None\<close> when the query string has no
  \<open>_sort\<close>, and \<open>None\<close> is the key of no row.\<close>

definition order_key_func :: "string option \<Rightarrow> row \<Rightarrow> exn + sort_key" where
  "order_key_func sort_param elem =
     (case sort_param of
        None \<Rightarrow> Inl KeyError
      | Some c \<Rightarrow>
          (case dict_index elem c of
             Inl e \<Rightarrow> Inl e
           | Inr PNone \<Rightarrow> Inr MinKey
           | Inr (PInt i) \<Rightarrow> Inr (KInt i)
           | Inr (PStr s) \<Rightarrow> Inr (KStr s)))"

subsection \<open>\<open>list.sort(key, reverse)\<close>\<close>

text \<open>
  \<open>list.sort\<close> first computes the key of every element; an exception of the key function
  leaves the list as it was. It then sorts stably with \<open><\<close> on the keys. Sorting keys among
  which an integer and a string occur has to compare two such keys, which raises
  \<open>TypeError\<close>. With \<open>reverse\<close> the list is reversed, sorted and reversed again, so equal
  keys keep their order.
\<close>

fun decorate :: "('a \<Rightarrow> exn + sort_key) \<Rightarrow> 'a list \<Rightarrow> exn + (sort_key \<times> 'a) list" where
  "decorate f [] = Inr []"
| "decorate f (x # xs) =
     (case f x of
        Inl e \<Rightarrow> Inl e
      | Inr k \<Rightarrow> (case decorate f xs of Inl e \<Rightarrow> Inl e | Inr ks \<Rightarrow> Inr ((k, x) # ks)))"

definition is_int_key :: "sort_key \<Rightarrow> bool" where
  "is_int_key k = (case k of KInt i \<Rightarrow> True | _ \<Rightarrow> False)"

definition is_str_key :: "sort_key \<Rightarrow> bool" where
  "is_str_key k = (case k of KStr s \<Rightarrow> True | _ \<Rightarrow> False)"

definition mixed_keys :: "sort_key list \<Rightarrow> bool" where
  "mixed_keys ks = (list_ex is_int_key ks \<and> list_ex is_str_key ks)"

fun insort_lt :: "(sort_key \<times> 'a) \<Rightarrow> (sort_key \<times> 'a) list \<Rightarrow> (sort_key \<times> 'a) list" where
  "insort_lt x [] = [x]"
| "insort_lt x (y # ys) =
     (if key_lt (fst y) (fst x) = Inr True then y # insort_lt x ys else x # y # ys)"

definition stable_sort :: "(sort_key \<times> 'a) list \<Rightarrow> (sort_key \<times> 'a) list" where
  "stable_sort xs = foldr insort_lt xs []"

definition list_sort :: "('a \<Rightarrow> exn + sort_key) \<Rightarrow> bool \<Rightarrow> 'a list \<Rightarrow> exn + 'a list" where
  "list_sort key reverse xs =
     (case decorate key xs of
        Inl e \<Rightarrow> Inl e
      | Inr ks \<Rightarrow>
          if mixed_keys (map fst ks) then Inl TypeError
          else if reverse then Inr (map snd (rev (stable_sort (rev ks))))
          else Inr (map snd (stable_sort ks)))"

subsection \<open>Slices\<close>

text \<open>\<open>xs[start:stop]\<close>: a negative index counts from the end, and both are clipped.\<close>

definition slice_index :: "nat \<Rightarrow> int \<Rightarrow> nat" where
  "slice_index n i = (if i < 0 then nat (max (i + int n) 0) else min (nat i) n)"

definition py_slice :: "'a list \<Rightarrow> int \<Rightarrow> int \<Rightarrow> 'a list" where
  "py_slice xs start stop =
     (let a = slice_index (length xs) start; b = slice_index (length xs) stop
      in take (b - a) (drop a xs))"

subsection \<open>\<open>filter_query_results\<close>\<close>

text \<open>\<open>int(args.get(name, None))\<close> under \<open>except (ValueError, TypeError)\<close>.\<close>

definition int_arg :: "nat \<Rightarrow> query_args \<Rightarrow> string \<Rightarrow> int option" where
  "int_arg max_str_digits args name =
     (case args_get args name of None \<Rightarrow> None | Some s \<Rightarrow> py_int max_str_digits s)"

text \<open>The truth value of \<open>limit\<close> and \<open>page\<close>: \<open>None\<close> and \<open>0\<close> are false.\<close>

definition truthy :: "int option \<Rightarrow> bool" where
  "truthy x = (case x of None \<Rightarrow> False | Some i \<Rightarrow> i \<noteq> 0)"

definition filter_criteria :: "query_args \<Rightarrow> (string \<times> string) list" where
  "filter_criteria args = filter (\<lambda>pair. \<not> startswith (fst pair) ''_'') (args_items args)"

definition filter_func :: "(string \<times> string) list \<Rightarrow> row \<Rightarrow> bool" where
  "filter_func criteria elem =
     list_all (\<lambda>(k, v). case dict_get elem k of
                           None \<Rightarrow> True
                         | Some x \<Rightarrow> lower (py_str x) = lower v) criteria"

text \<open>\<open>try: res.sort(...) except KeyError: pass\<close>.\<close>

definition sort_step :: "string option \<Rightarrow> bool \<Rightarrow> row list \<Rightarrow> exn + row list" where
  "sort_step sort_param sort_reverse res =
     (case list_sort (order_key_func sort_param) sort_reverse res of
        Inl KeyError \<Rightarrow> Inr res
      | Inl e \<Rightarrow> Inl e
      | Inr sorted_res \<Rightarrow> Inr sorted_res)"

definition paginate :: "int option \<Rightarrow> int option \<Rightarrow> 'a list \<Rightarrow> 'a list" where
  "paginate limit page res =
     (let offset = (if truthy limit \<and> truthy page then the limit * the page else 0);
          top = (if truthy limit then offset + the limit else int (length res))
      in py_slice res offset top)"

text \<open>The first argument is the limit of \<open>int\<close> on the number of digits.\<close>

definition filter_query_results :: "nat \<Rightarrow> row list \<Rightarrow> query_args \<Rightarrow> exn + row list" where
  "filter_query_results max_str_digits data args =
     (let sort_param = args_get args ''_sort'';
          sort_reverse = (args_get args ''_order'' = Some ''desc'');
          limit = int_arg max_str_digits args ''_limit'';
          page = int_arg max_str_digits args ''_page'';
          res = filter (filter_func (filter_criteria args)) data
      in case sort_step sort_param sort_reverse res of
           Inl e \<Rightarrow> Inl e
         | Inr res \<Rightarrow> Inr (paginate limit page res))"

subsection \<open>The contract of the shaper, in the spec's words\<close>

text \<open>
  A row passes the filter when for every key of the query string that does not start
  with an underscore, the key is no column of the row, or the value of the row, as a
  string, equals the value of the query string without regard to case. The value of a
  key of the query string is its first one.
\<close>

definition row_matches :: "query_args \<Rightarrow> row \<Rightarrow> bool" where
  "row_matches qs elem =
     (\<forall>k v. args_get qs k = Some v \<and> \<not> startswith k ''_'' \<longrightarrow>
        (dict_get elem k = None \<or>
         (\<exists>x. dict_get elem k = Some x \<and> lower (py_str x) = lower v)))"

text \<open>The value of the sort column in a row: null, an integer or null, a string or null.\<close>

definition null_at :: "string \<Rightarrow> row \<Rightarrow> bool" where
  "null_at c elem = (dict_get elem c = Some PNone)"

definition int_or_null_at :: "string \<Rightarrow> row \<Rightarrow> bool" where
  "int_or_null_at c elem =
     (case dict_get elem c of Some PNone \<Rightarrow> True | Some (PInt i) \<Rightarrow> True | _ \<Rightarrow> False)"

definition str_or_null_at :: "string \<Rightarrow> row \<Rightarrow> bool" where
  "str_or_null_at c elem =
     (case dict_get elem c of Some PNone \<Rightarrow> True | Some (PStr s) \<Rightarrow> True | _ \<Rightarrow> False)"

text \<open>In a list of keyed rows, no row with the sentinel comes after a row with another key.\<close>

definition nulls_before :: "(sort_key \<times> 'a) \<Rightarrow> (sort_key \<times> 'a) \<Rightarrow> bool" where
  "nulls_before a b = (fst b \<noteq> MinKey \<or> fst a = MinKey)"

section \<open>Registration\<close>

subsection \<open>Operations, the log and the server\<close>

text \<open>
  The four constants \<open>SQL.SELECT\<close>, \<open>SQL.INSERT\<close>, \<open>SQL.UPDATE\<close>, \<open>SQL.DELETE\<close>, the
  keys of \<open>OP_VERBS\<close>. The function \<open>get_sql_op\<close> of \<open>silence.sql\<close> is not among the sources:
  it is a parameter of the model, and its result \<open>None\<close> stands for every value that is
  not a key of \<open>OP_VERBS\<close>.
\<close>

datatype sql_op = SELECT | INSERT | UPDATE | DELETE

fun OP_VERBS :: "sql_op \<Rightarrow> string" where
  "OP_VERBS SELECT = ''get''"
| "OP_VERBS INSERT = ''post''"
| "OP_VERBS UPDATE = ''put''"
| "OP_VERBS DELETE = ''delete''"

text \<open>The argument \<open>allowed_roles\<close>: a list, or an object of another type.\<close>

datatype roles_arg = RoleList "pyval list" | NotAList pyval

datatype level = DEBUG | INFO | WARNING | ERROR

text \<open>A log record keeps the values that the message text is formatted from.\<close>

datatype message =
    SettingUpEndpoint string string
  | LoggedIdWithoutAuth string string
  | IncorrectVerb string sql_op string string
  | UnsupportedQuery string string
  | RolesNotAList pyval string string
  | RolesWithoutAuth string string
  | AuthWithoutRoles string string
  | ParamsNotProvided string "string list"

text \<open>The closure of \<open>route_handler\<close>: the variables of \<open>setup_endpoint\<close> it refers to.\<close>

record endpoint =
  ep_route :: string
  ep_sql :: string
  ep_auth_required :: bool
  ep_allowed_roles :: "pyval list"
  ep_request_body_params :: "string list"
  ep_logged_user :: bool
  ep_sql_params :: "string list"
  ep_url_params :: "string list"
  ep_sql_op :: sql_op

text \<open>An entry of the URL map (\<open>APP.add_url_rule\<close>) and one of \<open>API_SUMMARY\<close>.\<close>

record url_rule =
  rule :: string
  rule_endpoint :: string
  view_func :: endpoint
  methods :: "string list"

record summary_entry =
  summary_route :: string
  summary_method :: string
  summary_description :: "string option"

record server =
  logs :: "(level \<times> message) list"
  url_map :: "url_rule list"
  api_summary :: "summary_entry list"

text \<open>A call returns, leaves the process by \<open>sys.exit\<close> with a status, or raises an
  exception that nothing in \<open>setup_endpoint\<close> catches.\<close>

datatype outcome = Returned server | SysExit nat server | Raised exn server

definition logger :: "level \<Rightarrow> message \<Rightarrow> server \<Rightarrow> server" where
  "logger l m st = st\<lparr>logs := logs st @ [(l, m)]\<rparr>"

text \<open>What comes after a call: nothing, once the process has exited or an exception
  is on its way.\<close>

fun and_then :: "outcome \<Rightarrow> (server \<Rightarrow> outcome) \<Rightarrow> outcome" where
  "and_then (Returned st) f = f st"
| "and_then (SysExit c st) f = SysExit c st"
| "and_then (Raised e st) f = Raised e st"

subsection \<open>The checks\<close>

definition check_method ::
  "(string \<Rightarrow> sql_op option) \<Rightarrow> string \<Rightarrow> string \<Rightarrow> string \<Rightarrow> server \<Rightarrow> outcome" where
  "check_method get_sql_op sql verb endpoint st =
     (case get_sql_op sql of
        Some sql_op \<Rightarrow>
          (let correct_verb = OP_VERBS sql_op
           in if correct_verb \<noteq> lower verb
              then Returned (logger WARNING
                     (IncorrectVerb (upper verb) sql_op endpoint (upper correct_verb)) st)
              else Returned st)
      | None \<Rightarrow> SysExit 1 (logger ERROR (UnsupportedQuery sql endpoint) st))"

definition check_auth_roles ::
  "bool \<Rightarrow> roles_arg \<Rightarrow> string \<Rightarrow> string \<Rightarrow> server \<Rightarrow> outcome" where
  "check_auth_roles auth_required allowed_roles method route st =
     (case allowed_roles of
        NotAList v \<Rightarrow> SysExit 1 (logger ERROR (RolesNotAList v (upper method) route) st)
      | RoleList roles \<Rightarrow>
          (let st1 = (if \<not> auth_required \<and> length roles > 0 \<and> roles \<noteq> [PStr ''*'']
                      then logger WARNING (RolesWithoutAuth (upper method) route) st
                      else st);
               st2 = (if auth_required \<and> length roles = 0
                      then logger WARNING (AuthWithoutRoles (upper method) route) st1
                      else st1)
           in Returned st2))"

text \<open>
  \<open>check_params_match\<close>. The sets are lists without duplicates; the order in which Python
  goes through \<open>diff\<close> for the message is not fixed by the source, the model fixes one.
\<close>

definition params_diff :: "string list \<Rightarrow> string list \<Rightarrow> string list" where
  "params_diff sql_params user_params =
     removeAll ''loggedId'' (filter (\<lambda>p. p \<notin> set user_params) (remdups sql_params))"

definition check_params_match :: "string list \<Rightarrow> string list \<Rightarrow> string \<Rightarrow> server \<Rightarrow> outcome" where
  "check_params_match sql_params user_params route st =
     (let diff = params_diff sql_params user_params
      in if diff \<noteq> []
         then SysExit 1 (logger ERROR (ParamsNotProvided route diff) st)
         else Returned st)"

subsection \<open>\<open>setup_endpoint\<close>\<close>

text \<open>
  The settings and the collaborators that are not among the sources are parameters:
  \<open>settings.API_PREFIX\<close>, \<open>get_sql_op\<close> and the router, \<open>add_url_rule\<close> of the Flask
  application \<open>server_manager.APP\<close>. The router is given the rule, the name of the
  endpoint, the handler, the methods and the URL map; it gives the URL map after the call
  and the exception it raised, if any (Flask raises on a rule it cannot compile and on a
  name that is taken). \<open>API_SUMMARY.register_endpoint\<close> appends an entry.
\<close>

type_synonym router =
  "string \<Rightarrow> string \<Rightarrow> endpoint \<Rightarrow> string list \<Rightarrow> url_rule list \<Rightarrow> url_rule list \<times> exn option"

definition register_endpoint :: "summary_entry \<Rightarrow> server \<Rightarrow> server" where
  "register_endpoint e st = st\<lparr>api_summary := api_summary st @ [e]\<rparr>"

definition setup_endpoint ::
  "string \<Rightarrow> (string \<Rightarrow> sql_op option) \<Rightarrow> router \<Rightarrow> string \<Rightarrow> string \<Rightarrow> string \<Rightarrow> bool \<Rightarrow>
   roles_arg \<Rightarrow> string option \<Rightarrow> string list \<Rightarrow> server \<Rightarrow> outcome" where
  "setup_endpoint API_PREFIX get_sql_op add_url_rule route method sql auth_required allowed_roles
     description request_body_params st0 =
     (let st1 = logger DEBUG (SettingUpEndpoint method route) st0;
          logged_user = contains ''$loggedId'' sql;
          st2 = (if logged_user \<and> \<not> auth_required
                 then logger WARNING (LoggedIdWithoutAuth (upper method) route) st1
                 else st1);
          route_prefix = (if endswith API_PREFIX ''/'' then butlast API_PREFIX else API_PREFIX);
          full_route = route_prefix @ route
      in and_then (check_method get_sql_op sql method route st2) (\<lambda>st3.
         and_then (check_auth_roles auth_required allowed_roles method route st3) (\<lambda>st4.
         let sql_params = extract_params sql;
             url_params = extract_params route;
             sql_op = get_sql_op sql
         in and_then (if sql_op \<in> {Some SELECT, Some DELETE}
                      then check_params_match sql_params url_params route st4
                      else Returned st4) (\<lambda>st5.
            and_then (if sql_op \<in> {Some INSERT, Some UPDATE}
                      then check_params_match sql_params (url_params @ request_body_params) route st5
                      else Returned st5) (\<lambda>st6.
            case (sql_op, allowed_roles) of
              (Some op, RoleList roles) \<Rightarrow>
                (let route_handler =
                       \<lparr>ep_route = route, ep_sql = sql, ep_auth_required = auth_required,
                        ep_allowed_roles = roles, ep_request_body_params = request_body_params,
                        ep_logged_user = logged_user, ep_sql_params = sql_params,
                        ep_url_params = url_params, ep_sql_op = op\<rparr>
                 in case add_url_rule (flaskify_url full_route) (method @ route)
                           route_handler [method] (url_map st6) of
                      (m, Some e) \<Rightarrow> Raised e (st6\<lparr>url_map := m\<rparr>)
                    | (m, None) \<Rightarrow>
                        Returned (register_endpoint
                          \<lparr>summary_route = full_route, summary_method = upper method,
                           summary_description = description\<rparr> (st6\<lparr>url_map := m\<rparr>)))
            | _ \<Rightarrow> SysExit 1 st6)))))"

text \<open>
  The last case is never reached: \<open>check_method\<close> has left the process when
  \<open>get_sql_op\<close> gave no key of \<open>OP_VERBS\<close>, and \<open>check_auth_roles\<close> when
  \<open>allowed_roles\<close> was not a list.
\<close>

subsection \<open>The operation of a query, for the examples\<close>

text \<open>
  Modelled from the spec: \<open>get_sql_op\<close> of \<open>silence.sql\<close>, which is not among the sources.
  By the spec the kind of operation is inferred from the leading keyword of the query
  template, and a keyword other than SELECT, INSERT, UPDATE and DELETE is not recognized.
  The properties below hold for every \<open>get_sql_op\<close>; this one is used at concrete inputs.
\<close>

definition leading_keyword :: "string \<Rightarrow> string" where
  "leading_keyword sql = takeWhile (\<lambda>c. \<not> is_space c) (dropWhile is_space sql)"

definition leading_keyword_op :: "string \<Rightarrow> sql_op option" where
  "leading_keyword_op sql =
     (let kw = upper (leading_keyword sql)
      in if kw = ''SELECT'' then Some SELECT
         else if kw = ''INSERT'' then Some INSERT
         else if kw = ''UPDATE'' then Some UPDATE
         else if kw = ''DELETE'' then Some DELETE
         else None)"

text \<open>The server before any registration.\<close>

definition new_server :: server where
  "new_server = \<lparr>logs = [], url_map = [], api_summary = []\<rparr>"

subsection \<open>A router, for the examples\<close>

text \<open>
  A router for the concrete inputs, after \<open>add_url_rule\<close> of Flask: a rule that does not
  start with a slash, or that names a variable twice, raises \<open>ValueError\<close> and nothing is
  added; otherwise the rule is added, and \<open>AssertionError\<close> is raised when the name of the
  endpoint already has a handler. The variables are read as the names between angle
  brackets, which is the form \<open>flaskify_url\<close> gives them. Of the rules that Flask cannot
  compile these are the two kinds covered, and the examples use no rule of another kind.
  The properties below hold for every router.
\<close>

function rule_variables :: "string \<Rightarrow> string list" where
  "rule_variables [] = []"
| "rule_variables (c # cs) =
     (if c = CHR ''<''
      then takeWhile (\<lambda>x. x \<noteq> CHR ''>'') cs # rule_variables (dropWhile (\<lambda>x. x \<noteq> CHR ''>'') cs)
      else rule_variables cs)"
  by pat_completeness auto
termination
  by (relation "measure length") (auto simp: length_dropWhile_le less_Suc_eq_le)

definition flask_add_url_rule :: router where
  "flask_add_url_rule r name handler ms m =
     (if \<not> startswith r ''/'' \<or> \<not> distinct (rule_variables r) then (m, Some ValueError)
      else if name \<in> set (map rule_endpoint m)
      then (m @ [\<lparr>rule = r, rule_endpoint = name, view_func = handler, methods = ms\<rparr>],
            Some AssertionError)
      else (m @ [\<lparr>rule = r, rule_endpoint = name, view_func = handler, methods = ms\<rparr>], None))"

text \<open>
  The call of the router that \<open>setup_endpoint\<close> makes for a recognized operation and a list
  of roles, for the statements below.
\<close>

definition add_url_rule_call ::
  "router \<Rightarrow> string \<Rightarrow> string \<Rightarrow> string \<Rightarrow> string \<Rightarrow> bool \<Rightarrow> pyval list \<Rightarrow> string list \<Rightarrow>
   sql_op \<Rightarrow> url_rule list \<Rightarrow> url_rule list \<times> exn option" where
  "add_url_rule_call add_url_rule API_PREFIX route verb sql auth_required roles
     request_body_params op m =
     add_url_rule
       (flaskify_url ((if endswith API_PREFIX ''/'' then butlast API_PREFIX else API_PREFIX) @ route))
       (verb @ route)
       \<lparr>ep_route = route, ep_sql = sql, ep_auth_required = auth_required,
        ep_allowed_roles = roles, ep_request_body_params = request_body_params,
        ep_logged_user = contains ''$loggedId'' sql, ep_sql_params = extract_params sql,
        ep_url_params = extract_params route, ep_sql_op = op\<rparr>
       [verb] m"

section \<open>Request handling\<close>

subsection \<open>\<open>RE_QUERY_PARAM\<close>\<close>

text \<open>
  \<open>re.compile(r"^.*\$\w+/?$").match(route)\<close>, read from right to left: \<open>$\<close> holds at the
  end of the string and before a line feed that ends it; \<open>/?\<close> takes a slash or nothing;
  \<open>\w+\<close> takes one or more of the word characters that follow; \<open>\$\<close> is the sigil; and
  \<open>.*\<close> takes any characters but line feeds from the start of the string.
\<close>

definition at_end :: "string \<Rightarrow> bool" where
  "at_end s = (s = [] \<or> s = [CHR 0x0A])"

definition opt_slash_end :: "string \<Rightarrow> bool" where
  "opt_slash_end s = (at_end s \<or> (s \<noteq> [] \<and> hd s = CHR ''/'' \<and> at_end (tl s)))"

definition word_then_end :: "string \<Rightarrow> bool" where
  "word_then_end s =
     list_ex (\<lambda>n. opt_slash_end (drop n s)) [1 ..< Suc (length (takeWhile is_word s))]"

definition param_here :: "string \<Rightarrow> bool" where
  "param_here s = (s \<noteq> [] \<and> hd s = CHR ''$'' \<and> word_then_end (tl s))"

fun RE_QUERY_PARAM_match :: "string \<Rightarrow> bool" where
  "RE_QUERY_PARAM_match [] = param_here []"
| "RE_QUERY_PARAM_match (c # cs) =
     (param_here (c # cs) \<or> (c \<noteq> CHR 0x0A \<and> RE_QUERY_PARAM_match cs))"

text \<open>
  The spec's words, for comparison: the route pattern ends in a placeholder, optionally
  followed by a slash.
\<close>

definition ends_in_placeholder :: "string \<Rightarrow> bool" where
  "ends_in_placeholder route =
     (\<exists>pre w. w \<noteq> [] \<and> list_all is_word w \<and>
        (route = pre @ ''$'' @ w \<or> route = pre @ ''$'' @ w @ ''/''))"

subsection \<open>The request and the collaborators\<close>

text \<open>
  Of the request the handler reads the header \<open>Token\<close>, the query string, the parameters
  of the URL pattern (\<open>kwargs\<close>) and the body, as JSON or as a form.
\<close>

record request =
  token_header :: "string option"
  args :: query_args
  kwargs :: "(string \<times> pyval) list"
  is_json :: bool
  json :: "(string \<times> pyval) list"
  form :: "(string \<times> pyval) list"

text \<open>
  What is not among the sources is a parameter: \<open>check_token\<close> (\<open>None\<close> is its
  \<open>TokenError\<close>), the setting \<open>USER_AUTH_DATA.get("role", None)\<close>, the primary key of the
  table of users (\<open>get_primary_key\<close>), \<open>silence_to_mysql\<close>, the two calls of the
  data layer, which may raise, and the limit of the interpreter on the digits of \<open>int\<close>.
\<close>

record 'w collaborators =
  check_token :: "string \<Rightarrow> (string \<times> pyval) list option"
  role_setting :: "string option"
  users_primary_key :: "string option"
  silence_to_mysql :: "string \<Rightarrow> string"
  api_safe_query :: "string \<Rightarrow> pyval list \<Rightarrow> exn + row list"
  api_safe_update :: "string \<Rightarrow> pyval list \<Rightarrow> exn + 'w"
  int_max_str_digits :: nat

datatype db_call = Query string "pyval list" | Update string "pyval list"

datatype 'w body = Rows "row list" | Written 'w

subsection \<open>The authorization gate\<close>

definition get_logged_user :: "'w collaborators \<Rightarrow> request \<Rightarrow> (string \<times> pyval) list option" where
  "get_logged_user env req =
     (case token_header req of
        None \<Rightarrow> None
      | Some token \<Rightarrow> if token \<noteq> [] then check_token env token else None)"

text \<open>\<open>next((v for k, v in logged_user_data.items() if k.lower() == role_col_name.lower()), None)\<close>\<close>

definition find_role :: "(string \<times> pyval) list \<Rightarrow> string \<Rightarrow> pyval" where
  "find_role logged_user_data role_col_name =
     (case find (\<lambda>(k, v). lower k = lower role_col_name) logged_user_data of
        Some (k, v) \<Rightarrow> v
      | None \<Rightarrow> PNone)"

definition check_session ::
  "'w collaborators \<Rightarrow> (string \<times> pyval) list option \<Rightarrow> pyval list \<Rightarrow> exn + unit" where
  "check_session env logged_user_data allowed_roles =
     (case logged_user_data of
        None \<Rightarrow> Inl (HTTPError 401 ''Unauthorized'')
      | Some user_data \<Rightarrow>
          (case role_setting env of
             None \<Rightarrow> Inr ()
           | Some role_col_name \<Rightarrow>
               if role_col_name \<noteq> [] then
                 (let user_role = find_role user_data role_col_name
                  in if user_role \<notin> set allowed_roles \<and> PStr ''*'' \<notin> set allowed_roles
                     then Inl (HTTPError 401 ''Unauthorized'')
                     else Inr ())
               else Inr ()))"

definition get_current_user_id ::
  "'w collaborators \<Rightarrow> (string \<times> pyval) list option \<Rightarrow> exn + pyval" where
  "get_current_user_id env logged_user_data =
     (case logged_user_data of
        None \<Rightarrow> Inr PNone
      | Some user_data \<Rightarrow>
          (case users_primary_key env of
             None \<Rightarrow> Inr PNone
           | Some pk \<Rightarrow> if pk \<noteq> [] then dict_index user_data pk else Inr PNone))"

subsection \<open>\<open>route_handler\<close>\<close>

text \<open>\<open>{param: form.get(param, None) for param in request_body_params}\<close>\<close>

definition body_params_of :: "(string \<times> pyval) list \<Rightarrow> string list \<Rightarrow> (string \<times> pyval) list" where
  "body_params_of frm request_body_params =
     fold (\<lambda>param d. dict_set d param (case dict_get frm param of None \<Rightarrow> PNone | Some v \<Rightarrow> v))
       request_body_params []"

text \<open>\<open>for param in url_params: body_params[param] = request_url_params_dict[param]\<close>\<close>

fun add_url_params ::
  "(string \<times> pyval) list \<Rightarrow> string list \<Rightarrow> (string \<times> pyval) list \<Rightarrow> exn + (string \<times> pyval) list" where
  "add_url_params d [] body_params = Inr body_params"
| "add_url_params d (param # ps) body_params =
     (case dict_index d param of
        Inl e \<Rightarrow> Inl e
      | Inr v \<Rightarrow> add_url_params d ps (dict_set body_params param v))"

text \<open>
  The handler gives the response (the body that \<open>jsonify\<close> receives and the status) or the
  exception it raises, and with it the calls of the data layer that were made, in their
  order. Its debug and info records in the log are left out.
\<close>

definition route_handler ::
  "'w collaborators \<Rightarrow> endpoint \<Rightarrow> request \<Rightarrow> (exn + 'w body \<times> nat) \<times> db_call list" where
  "route_handler env ep req =
     (let logged_user_data = get_logged_user env req
      in case (if ep_auth_required ep
               then check_session env logged_user_data (ep_allowed_roles ep)
               else Inr ()) of
           Inl e \<Rightarrow> (Inl e, [])
         | Inr _ \<Rightarrow>
           (case (if ep_logged_user ep
                  then (case get_current_user_id env logged_user_data of
                          Inl e \<Rightarrow> Inl e
                        | Inr user_id \<Rightarrow> Inr (dict_set (kwargs req) ''loggedId'' user_id))
                  else Inr (kwargs req)) of
              Inl e \<Rightarrow> (Inl e, [])
            | Inr request_url_params_dict \<Rightarrow>
              (let query_string = silence_to_mysql env (ep_sql ep);
                   status = 200
               in if ep_sql_op ep = SELECT then
                    (case dict_tuple request_url_params_dict (ep_sql_params ep) of
                       Inl e \<Rightarrow> (Inl e, [])
                     | Inr url_pattern_params \<Rightarrow>
                       (case api_safe_query env query_string url_pattern_params of
                          Inl e \<Rightarrow> (Inl e, [Query query_string url_pattern_params])
                        | Inr res \<Rightarrow>
                          (case filter_query_results (int_max_str_digits env) res (args req) of
                             Inl e \<Rightarrow> (Inl e, [Query query_string url_pattern_params])
                           | Inr res \<Rightarrow>
                               if RE_QUERY_PARAM_match (ep_route ep) \<and> res = []
                               then (Inl (HTTPError 404 ''Not found''),
                                     [Query query_string url_pattern_params])
                               else (Inr (Rows res, status),
                                     [Query query_string url_pattern_params]))))
                  else
                    (let frm = (if is_json req then json req else form req);
                         body_params = body_params_of frm (ep_request_body_params ep)
                     in case add_url_params request_url_params_dict (ep_url_params ep) body_params of
                          Inl e \<Rightarrow> (Inl e, [])
                        | Inr body_params \<Rightarrow>
                          (case dict_tuple body_params (ep_sql_params ep) of
                             Inl e \<Rightarrow> (Inl e, [])
                           | Inr param_tuple \<Rightarrow>
                             (case api_safe_update env query_string param_tuple of
                                Inl e \<Rightarrow> (Inl e, [Update query_string param_tuple])
                              | Inr res \<Rightarrow>
                                  (Inr (Written res, status),
                                   [Update query_string param_tuple])))))))"

subsection \<open>A request, for the examples\<close>

text \<open>
  Collaborators for the concrete inputs: one token is valid, the role column is
  \<open>role\<close>, the primary key of the users is \<open>id\<close>, the data layer finds no row, and
  \<open>int\<close> has the default limit of 4300 digits.
\<close>

definition example_check_token :: "string \<Rightarrow> (string \<times> pyval) list option" where
  "example_check_token t =
     (if t = ''good'' then Some [(''id'', PInt 7), (''Role'', PStr ''Admin'')] else None)"

definition example_env :: "unit collaborators" where
  "example_env =
     \<lparr>check_token = example_check_token, role_setting = Some ''role'',
      users_primary_key = Some ''id'', silence_to_mysql = (\<lambda>sql. sql),
      api_safe_query = (\<lambda>q ps. Inr []), api_safe_update = (\<lambda>q ps. Inr ()),
      int_max_str_digits = 4300\<rparr>"

definition example_endpoint :: endpoint where
  "example_endpoint =
     \<lparr>ep_route = ''/users/$id'', ep_sql = ''SELECT * FROM users WHERE id = $id'',
      ep_auth_required = True, ep_allowed_roles = [PStr ''admin''],
      ep_request_body_params = [], ep_logged_user = False, ep_sql_params = [''id''],
      ep_url_params = [''id''], ep_sql_op = SELECT\<rparr>"

definition example_request :: request where
  "example_request =
     \<lparr>token_header = Some ''good'', args = [], kwargs = [(''id'', PStr ''3'')],
      is_json = False, json = [], form = []\<rparr>"

section \<open>Properties of the parameter extractor\<close>

lemma not_word_dollar: "\<not> is_word CHR ''$''"
  by (simp add: is_word_def lower_letters_def upper_letters_def digit_chars_def)

lemma not_word_lt: "\<not> is_word CHR ''<''"
  by (simp add: is_word_def lower_letters_def upper_letters_def digit_chars_def)

lemma findall_param_skip:
  "CHR ''$'' \<notin> set w \<Longrightarrow> findall_param (w @ t) = findall_param t"
  by (induction w) auto

lemma marked_identifiers_skip:
  "CHR ''$'' \<notin> set w \<Longrightarrow> marked_identifiers (w @ t) = marked_identifiers t"
  by (induction w) auto

lemma takeWhile_word_no_dollar: "CHR ''$'' \<notin> set (takeWhile is_word cs)"
  using not_word_dollar by (auto dest: set_takeWhileD)

lemma takeWhile_nonempty_iff: "takeWhile P cs \<noteq> [] \<longleftrightarrow> cs \<noteq> [] \<and> P (hd cs)"
  by (cases cs) auto

lemma extract_params_marked: "extract_params s = marked_identifiers s"
proof (induction s rule: findall_param.induct)
  case 1
  show ?case by (simp add: extract_params_def)
next
  case (2 c cs)
  show ?case
  proof (cases "c = CHR ''$'' \<and> takeWhile is_word cs \<noteq> []")
    case True
    have "marked_identifiers cs = marked_identifiers (takeWhile is_word cs @ dropWhile is_word cs)"
      by simp
    also have "\<dots> = marked_identifiers (dropWhile is_word cs)"
      by (rule marked_identifiers_skip) (rule takeWhile_word_no_dollar)
    finally show ?thesis
      using True 2(1) by (simp add: extract_params_def takeWhile_nonempty_iff)
  next
    case False
    then show ?thesis
      using 2(2) by (auto simp: extract_params_def takeWhile_nonempty_iff)
  qed
qed

lemma marked_identifiers_words:
  "list_all (\<lambda>w. w \<noteq> [] \<and> list_all is_word w) (marked_identifiers s)"
  by (induction s) (auto simp: takeWhile_nonempty_iff list_all_iff dest: set_takeWhileD)

lemma flaskify_url_head:
  "takeWhile is_word cs = [] \<Longrightarrow> takeWhile is_word (flaskify_url cs) = []"
  by (cases cs) (auto simp: not_word_lt)

lemma findall_flaskify: "findall_param (flaskify_url s) = []"
proof (induction s rule: flaskify_url.induct)
  case 1
  show ?case by simp
next
  case (2 c cs)
  show ?case
  proof (cases "c = CHR ''$'' \<and> takeWhile is_word cs \<noteq> []")
    case True
    have "findall_param (takeWhile is_word cs @ CHR ''>'' # flaskify_url (dropWhile is_word cs))
          = findall_param (CHR ''>'' # flaskify_url (dropWhile is_word cs))"
      by (rule findall_param_skip) (rule takeWhile_word_no_dollar)
    then show ?thesis using True 2(1) by simp
  next
    case False
    then show ?thesis using 2(2) by (auto simp: flaskify_url_head)
  qed
qed

text \<open>
  Claim C8. Parameter extraction is a function of the input string alone (it reads and
  writes no state, so repeated calls give the same result). For every string it returns,
  in their order of appearance and with duplicates, the identifiers marked by the sigil:
  for every \<open>$\<close> directly followed by a word character, the longest run of word characters
  behind it, without the sigil; each of them is a non-empty word. On the empty string it
  returns the empty list, and on the translated form of any route pattern
  (\<open>flaskify_url\<close>) it returns the empty list.
\<close>

theorem extract_params_contract:
  "extract_params s = marked_identifiers s
   \<and> list_all (\<lambda>w. w \<noteq> [] \<and> list_all is_word w) (extract_params s)
   \<and> extract_params [] = []
   \<and> extract_params (flaskify_url s) = []"
  using marked_identifiers_words [of s]
  by (simp add: extract_params_marked [symmetric] findall_flaskify)
     (simp add: extract_params_def findall_flaskify)

theorem extract_params_contract_witness:
  "extract_params ''/shops/$shop/items/$id/$shop'' = [''shop'', ''id'', ''shop'']
   \<and> marked_identifiers ''/shops/$shop/items/$id/$shop'' = [''shop'', ''id'', ''shop'']
   \<and> flaskify_url ''/shops/$shop/items/$id/$shop'' = ''/shops/<shop>/items/<id>/<shop>''
   \<and> extract_params (flaskify_url ''/shops/$shop/items/$id/$shop'') = []"
proof -
  have "extract_params ''/shops/$shop/items/$id/$shop'' = [''shop'', ''id'', ''shop'']"
    by code_simp
  moreover have "flaskify_url ''/shops/$shop/items/$id/$shop'' = ''/shops/<shop>/items/<id>/<shop>''"
    by code_simp
  ultimately show ?thesis
    using extract_params_contract [of "''/shops/$shop/items/$id/$shop''"] by simp
qed

section \<open>Properties of registration\<close>

lemma logger_simps [simp]:
  "logs (logger l m st) = logs st @ [(l, m)]"
  "url_map (logger l m st) = url_map st"
  "api_summary (logger l m st) = api_summary st"
  by (simp_all add: logger_def)

lemma register_endpoint_simps [simp]:
  "logs (register_endpoint e st) = logs st"
  "url_map (register_endpoint e st) = url_map st"
  "api_summary (register_endpoint e st) = api_summary st @ [e]"
  by (simp_all add: register_endpoint_def)

lemma set_params_diff:
  "set (params_diff sql_params user_params) = set sql_params - set user_params - {''loggedId''}"
  by (auto simp: params_diff_def)

lemma params_diff_empty_iff:
  "params_diff sql_params user_params = [] \<longleftrightarrow> set sql_params - {''loggedId''} \<subseteq> set user_params"
  using set_params_diff [of sql_params user_params] by (metis Diff_eq_empty_iff Diff_insert Diff_insert2 set_empty2)

lemma check_method_None:
  "g sql = None \<Longrightarrow>
   check_method g sql verb route st = SysExit 1 (logger ERROR (UnsupportedQuery sql route) st)"
  by (simp add: check_method_def)

lemma check_method_Some:
  "g sql = Some op \<Longrightarrow>
   check_method g sql verb route st =
     Returned (if OP_VERBS op \<noteq> lower verb
               then logger WARNING (IncorrectVerb (upper verb) op route (upper (OP_VERBS op))) st
               else st)"
  by (simp add: check_method_def Let_def)

lemma check_auth_roles_NotAList:
  "check_auth_roles auth (NotAList v) verb route st =
     SysExit 1 (logger ERROR (RolesNotAList v (upper verb) route) st)"
  by (simp add: check_auth_roles_def)

lemma check_auth_roles_RoleList:
  "check_auth_roles auth (RoleList rs) verb route st =
     Returned (if \<not> auth \<and> rs \<noteq> [] \<and> rs \<noteq> [PStr ''*'']
               then logger WARNING (RolesWithoutAuth (upper verb) route) st
               else if auth \<and> rs = []
               then logger WARNING (AuthWithoutRoles (upper verb) route) st
               else st)"
  by (auto simp add: check_auth_roles_def Let_def)

lemma check_params_match_cases:
  "check_params_match sp up route st =
     (if set sp - {''loggedId''} \<subseteq> set up then Returned st
      else SysExit 1 (logger ERROR (ParamsNotProvided route (params_diff sp up)) st))"
  by (simp add: check_params_match_def Let_def params_diff_empty_iff)

lemma setup_endpoint_exit:
  "setup_endpoint P g R route verb sql auth ar d body st = SysExit c st' \<Longrightarrow>
   c = 1 \<and> url_map st' = url_map st \<and> api_summary st' = api_summary st"
  unfolding setup_endpoint_def Let_def
  by (cases "g sql"; cases ar)
     (auto simp: check_method_None check_method_Some check_auth_roles_NotAList
        check_auth_roles_RoleList check_params_match_cases
        split: if_splits prod.splits option.splits)

lemma setup_endpoint_unsupported:
  "g sql = None \<Longrightarrow>
   \<exists>st'. setup_endpoint P g R route verb sql auth ar d body st = SysExit 1 st'
     \<and> last (logs st') = (ERROR, UnsupportedQuery sql route)"
  unfolding setup_endpoint_def Let_def
  by (simp add: check_method_None)

lemma setup_endpoint_not_a_list:
  "\<exists>st'. setup_endpoint P g R route verb sql auth (NotAList v) d body st = SysExit 1 st'"
  unfolding setup_endpoint_def Let_def
  by (cases "g sql") (simp_all add: check_method_None check_method_Some check_auth_roles_NotAList)

lemma setup_endpoint_missing:
  assumes "g sql = Some op"
    and "up = (if op = SELECT \<or> op = DELETE then extract_params route else extract_params route @ body)"
    and "\<not> set (extract_params sql) - {''loggedId''} \<subseteq> set up"
  shows "\<exists>st'. setup_endpoint P g R route verb sql auth (RoleList rs) d body st = SysExit 1 st'
     \<and> last (logs st') = (ERROR, ParamsNotProvided route (params_diff (extract_params sql) up))"
  using assms unfolding setup_endpoint_def Let_def
  by (cases op)
     (auto simp: check_method_Some check_auth_roles_RoleList check_params_match_cases)

text \<open>With covered parameters the outcome is the one of the router.\<close>

lemma setup_endpoint_accepted:
  assumes "g sql = Some op"
    and "up = (if op = SELECT \<or> op = DELETE then extract_params route else extract_params route @ body)"
    and "set (extract_params sql) - {''loggedId''} \<subseteq> set up"
    and "add_url_rule_call R P route verb sql auth rs body op (url_map st) = (m, None)"
  shows "\<exists>st'. setup_endpoint P g R route verb sql auth (RoleList rs) d body st = Returned st'
     \<and> url_map st' = m
     \<and> api_summary st' = api_summary st @
          [\<lparr>summary_route = (if endswith P ''/'' then butlast P else P) @ route,
            summary_method = upper verb, summary_description = d\<rparr>]
     \<and> (OP_VERBS op \<noteq> lower verb \<longrightarrow>
          (WARNING, IncorrectVerb (upper verb) op route (upper (OP_VERBS op))) \<in> set (logs st'))
     \<and> (\<not> auth \<and> rs \<noteq> [] \<and> rs \<noteq> [PStr ''*''] \<longrightarrow>
          (WARNING, RolesWithoutAuth (upper verb) route) \<in> set (logs st'))
     \<and> (auth \<and> rs = [] \<longrightarrow>
          (WARNING, AuthWithoutRoles (upper verb) route) \<in> set (logs st'))"
  using assms unfolding setup_endpoint_def Let_def add_url_rule_call_def
  by (cases op)
     (auto simp: check_method_Some check_auth_roles_RoleList check_params_match_cases)

lemma setup_endpoint_rejected:
  assumes "g sql = Some op"
    and "up = (if op = SELECT \<or> op = DELETE then extract_params route else extract_params route @ body)"
    and "set (extract_params sql) - {''loggedId''} \<subseteq> set up"
    and "add_url_rule_call R P route verb sql auth rs body op (url_map st) = (m, Some e)"
  shows "\<exists>st'. setup_endpoint P g R route verb sql auth (RoleList rs) d body st = Raised e st'
     \<and> url_map st' = m
     \<and> api_summary st' = api_summary st
     \<and> (OP_VERBS op \<noteq> lower verb \<longrightarrow>
          (WARNING, IncorrectVerb (upper verb) op route (upper (OP_VERBS op))) \<in> set (logs st'))
     \<and> (\<not> auth \<and> rs \<noteq> [] \<and> rs \<noteq> [PStr ''*''] \<longrightarrow>
          (WARNING, RolesWithoutAuth (upper verb) route) \<in> set (logs st'))
     \<and> (auth \<and> rs = [] \<longrightarrow>
          (WARNING, AuthWithoutRoles (upper verb) route) \<in> set (logs st'))"
  using assms unfolding setup_endpoint_def Let_def add_url_rule_call_def
  by (cases op)
     (auto simp: check_method_Some check_auth_roles_RoleList check_params_match_cases)

text \<open>
  Claim C1, as amended. Let the argument \<open>allowed_roles\<close> be a list and let the operation
  of the query be recognized. For SELECT and DELETE, every parameter of the query other
  than \<open>loggedId\<close> being among the parameters of the route pattern (as sets) is necessary
  for registration to return, and sufficient when the router accepts the rule; for INSERT
  and UPDATE the same holds with the parameters of the route pattern and the declared body
  parameters together. When a parameter is not covered, the process exits with status 1,
  the last log record is the error naming exactly the missing parameters, and the URL map
  and the API summary are as before. When the parameters are covered and the router raises,
  that exception leaves \<open>setup_endpoint\<close> and the API summary is as before. When
  registration returns, the URL map is the one the router gave.
\<close>

theorem setup_endpoint_params_contract:
  assumes "g sql = Some op"
  shows
    "((op = SELECT \<or> op = DELETE) \<longrightarrow>
        ((\<exists>st'. setup_endpoint P g R route verb sql auth (RoleList rs) d body st = Returned st')
          \<longleftrightarrow> set (extract_params sql) - {''loggedId''} \<subseteq> set (extract_params route)
              \<and> snd (add_url_rule_call R P route verb sql auth rs body op (url_map st)) = None))
     \<and> ((op = INSERT \<or> op = UPDATE) \<longrightarrow>
        ((\<exists>st'. setup_endpoint P g R route verb sql auth (RoleList rs) d body st = Returned st')
          \<longleftrightarrow> set (extract_params sql) - {''loggedId''} \<subseteq> set (extract_params route) \<union> set body
              \<and> snd (add_url_rule_call R P route verb sql auth rs body op (url_map st)) = None))
     \<and> (\<forall>up. up = (if op = SELECT \<or> op = DELETE then extract_params route
                    else extract_params route @ body)
            \<and> \<not> set (extract_params sql) - {''loggedId''} \<subseteq> set up \<longrightarrow>
          (\<exists>st' diff. setup_endpoint P g R route verb sql auth (RoleList rs) d body st = SysExit 1 st'
              \<and> last (logs st') = (ERROR, ParamsNotProvided route diff)
              \<and> set diff = set (extract_params sql) - {''loggedId''} - set up
              \<and> url_map st' = url_map st \<and> api_summary st' = api_summary st))
     \<and> (\<forall>up e. up = (if op = SELECT \<or> op = DELETE then extract_params route
                      else extract_params route @ body)
            \<and> set (extract_params sql) - {''loggedId''} \<subseteq> set up
            \<and> snd (add_url_rule_call R P route verb sql auth rs body op (url_map st)) = Some e \<longrightarrow>
          (\<exists>st'. setup_endpoint P g R route verb sql auth (RoleList rs) d body st = Raised e st'
              \<and> api_summary st' = api_summary st))
     \<and> (\<forall>st'. setup_endpoint P g R route verb sql auth (RoleList rs) d body st = Returned st' \<longrightarrow>
          url_map st' = fst (add_url_rule_call R P route verb sql auth rs body op (url_map st)))"
proof -
  define up where "up = (if op = SELECT \<or> op = DELETE then extract_params route
                         else extract_params route @ body)"
  define call where "call = add_url_rule_call R P route verb sql auth rs body op (url_map st)"
  let ?run = "setup_endpoint P g R route verb sql auth (RoleList rs) d body st"
  let ?covered = "set (extract_params sql) - {''loggedId''} \<subseteq> set up"
  have ok: "?covered \<Longrightarrow> snd call = None \<Longrightarrow> \<exists>st'. ?run = Returned st' \<and> url_map st' = fst call"
    using assms up_def setup_endpoint_accepted [where g = g and sql = sql and op = op and up = up
        and route = route and body = body and P = P and verb = verb and auth = auth and rs = rs
        and d = d and st = st and R = R and m = "fst call"]
    unfolding call_def by (metis prod.collapse)
  have raised: "?covered \<Longrightarrow> snd call = Some e \<Longrightarrow>
      \<exists>st'. ?run = Raised e st' \<and> api_summary st' = api_summary st" for e
    using assms up_def setup_endpoint_rejected [where g = g and sql = sql and op = op and up = up
        and route = route and body = body and P = P and verb = verb and auth = auth and rs = rs
        and d = d and st = st and R = R and m = "fst call" and e = e]
    unfolding call_def by (metis prod.collapse)
  have bad: "\<not> ?covered \<Longrightarrow> \<exists>st'. ?run = SysExit 1 st'
      \<and> last (logs st') = (ERROR, ParamsNotProvided route (params_diff (extract_params sql) up))"
    using assms up_def setup_endpoint_missing [where g = g and sql = sql and op = op and up = up
        and route = route and body = body and P = P and verb = verb and auth = auth and rs = rs
        and d = d and st = st and R = R]
    by auto
  have iff: "(\<exists>st'. ?run = Returned st') \<longleftrightarrow> ?covered \<and> snd call = None"
  proof (cases ?covered)
    case False
    then show ?thesis using bad by auto
  next
    case True
    show ?thesis
    proof (cases "snd call")
      case None
      then show ?thesis using True ok by auto
    next
      case (Some e)
      then show ?thesis using True raised [of e] by auto
    qed
  qed
  have c1: "(op = SELECT \<or> op = DELETE) \<longrightarrow>
        ((\<exists>st'. ?run = Returned st')
          \<longleftrightarrow> set (extract_params sql) - {''loggedId''} \<subseteq> set (extract_params route)
              \<and> snd call = None)"
    using iff by (auto simp: up_def)
  have c2: "(op = INSERT \<or> op = UPDATE) \<longrightarrow>
        ((\<exists>st'. ?run = Returned st')
          \<longleftrightarrow> set (extract_params sql) - {''loggedId''} \<subseteq> set (extract_params route) \<union> set body
              \<and> snd call = None)"
    using iff by (auto simp: up_def)
  have c3: "\<not> ?covered \<longrightarrow>
          (\<exists>st' diff. ?run = SysExit 1 st'
              \<and> last (logs st') = (ERROR, ParamsNotProvided route diff)
              \<and> set diff = set (extract_params sql) - {''loggedId''} - set up
              \<and> url_map st' = url_map st \<and> api_summary st' = api_summary st)"
  proof
    assume "\<not> ?covered"
    then obtain st' where st': "?run = SysExit 1 st'"
      "last (logs st') = (ERROR, ParamsNotProvided route (params_diff (extract_params sql) up))"
      using bad by blast
    moreover have "url_map st' = url_map st \<and> api_summary st' = api_summary st"
      using setup_endpoint_exit [OF st'(1)] by simp
    moreover have "set (params_diff (extract_params sql) up)
        = set (extract_params sql) - {''loggedId''} - set up"
      by (auto simp: set_params_diff)
    ultimately show "\<exists>st' diff. ?run = SysExit 1 st'
              \<and> last (logs st') = (ERROR, ParamsNotProvided route diff)
              \<and> set diff = set (extract_params sql) - {''loggedId''} - set up
              \<and> url_map st' = url_map st \<and> api_summary st' = api_summary st"
      by blast
  qed
  have c4: "\<forall>e. ?covered \<and> snd call = Some e \<longrightarrow>
          (\<exists>st'. ?run = Raised e st' \<and> api_summary st' = api_summary st)"
    using raised by blast
  have c5: "\<forall>st'. ?run = Returned st' \<longrightarrow> url_map st' = fst call"
  proof (intro allI impI)
    fix st'
    assume r: "?run = Returned st'"
    then have "?covered \<and> snd call = None" using iff by blast
    then show "url_map st' = fst call" using ok r by auto
  qed
  show ?thesis using c1 c2 c3 c4 c5 unfolding up_def call_def by blast
qed

text \<open>
  Claim C1 as stated fails at two inputs. First, \<open>allowed_roles\<close> is not a list: the query
  is a SELECT whose one parameter is in the route pattern, and registration exits in
  \<open>check_auth_roles\<close>. Second, the route pattern has a placeholder twice: the query is a
  SELECT whose parameters are in the route pattern, the roles are a list, and the router
  raises \<open>ValueError\<close> for the rule, so that registration does not return.
\<close>

theorem registration_iff_counterexample:
  "leading_keyword_op ''SELECT * FROM users WHERE id = $id'' = Some SELECT
   \<and> set (extract_params ''SELECT * FROM users WHERE id = $id'') - {''loggedId''}
        \<subseteq> set (extract_params ''/users/$id'')
   \<and> setup_endpoint ''/api'' leading_keyword_op flask_add_url_rule ''/users/$id'' ''get''
        ''SELECT * FROM users WHERE id = $id'' False (NotAList (PStr ''admin'')) None [] new_server
      = SysExit 1 \<lparr>logs = [(DEBUG, SettingUpEndpoint ''get'' ''/users/$id''),
                            (ERROR, RolesNotAList (PStr ''admin'') ''GET'' ''/users/$id'')],
                    url_map = [], api_summary = []\<rparr>
   \<and> leading_keyword_op ''SELECT * FROM items WHERE shop = $shop AND id = $id'' = Some SELECT
   \<and> set (extract_params ''SELECT * FROM items WHERE shop = $shop AND id = $id'') - {''loggedId''}
        \<subseteq> set (extract_params ''/shops/$shop/items/$id/$shop'')
   \<and> setup_endpoint ''/api'' leading_keyword_op flask_add_url_rule
        ''/shops/$shop/items/$id/$shop'' ''get''
        ''SELECT * FROM items WHERE shop = $shop AND id = $id'' False (RoleList [PStr ''*''])
        None [] new_server
      = Raised ValueError
          \<lparr>logs = [(DEBUG, SettingUpEndpoint ''get'' ''/shops/$shop/items/$id/$shop'')],
           url_map = [], api_summary = []\<rparr>"
  by code_simp

theorem setup_endpoint_params_contract_witness:
  "leading_keyword_op ''UPDATE users SET name = $name WHERE id = $id'' = Some UPDATE
   \<and> (\<exists>st'. setup_endpoint ''/api'' leading_keyword_op flask_add_url_rule ''/users/$id'' ''put''
          ''UPDATE users SET name = $name WHERE id = $id'' True (RoleList [PStr ''*'']) None
          [''name''] new_server = Returned st')
   \<and> \<not> (\<exists>st'. setup_endpoint ''/api'' leading_keyword_op flask_add_url_rule ''/users/$id'' ''put''
          ''UPDATE users SET name = $name WHERE id = $id'' True (RoleList [PStr ''*'']) None
          [] new_server = Returned st')"
proof -
  let ?sql = "''UPDATE users SET name = $name WHERE id = $id''"
  have op: "leading_keyword_op ?sql = Some UPDATE" by code_simp
  have e1: "extract_params ?sql = [''name'', ''id'']" by code_simp
  have e2: "extract_params ''/users/$id'' = [''id'']" by code_simp
  have r: "snd (add_url_rule_call flask_add_url_rule ''/api'' ''/users/$id'' ''put'' ?sql True
                  [PStr ''*''] [''name''] UPDATE (url_map new_server)) = None"
    by code_simp
  have a: "(\<exists>st'. setup_endpoint ''/api'' leading_keyword_op flask_add_url_rule ''/users/$id''
              ''put'' ?sql True (RoleList [PStr ''*'']) None [''name''] new_server = Returned st')
           \<longleftrightarrow> set (extract_params ?sql) - {''loggedId''}
                 \<subseteq> set (extract_params ''/users/$id'') \<union> set [''name'']
               \<and> snd (add_url_rule_call flask_add_url_rule ''/api'' ''/users/$id'' ''put'' ?sql True
                  [PStr ''*''] [''name''] UPDATE (url_map new_server)) = None"
    using op setup_endpoint_params_contract [where g = leading_keyword_op and sql = ?sql
        and op = UPDATE and P = "''/api''" and route = "''/users/$id''"
        and verb = "''put''" and auth = True and rs = "[PStr ''*'']" and d = None
        and body = "[''name'']" and st = new_server and R = flask_add_url_rule]
    by blast
  have b: "(\<exists>st'. setup_endpoint ''/api'' leading_keyword_op flask_add_url_rule ''/users/$id''
              ''put'' ?sql True (RoleList [PStr ''*'']) None [] new_server = Returned st')
           \<longleftrightarrow> set (extract_params ?sql) - {''loggedId''}
                 \<subseteq> set (extract_params ''/users/$id'') \<union> set []
               \<and> snd (add_url_rule_call flask_add_url_rule ''/api'' ''/users/$id'' ''put'' ?sql True
                  [PStr ''*''] [] UPDATE (url_map new_server)) = None"
    using op setup_endpoint_params_contract [where g = leading_keyword_op and sql = ?sql
        and op = UPDATE and P = "''/api''" and route = "''/users/$id''"
        and verb = "''put''" and auth = True and rs = "[PStr ''*'']" and d = None
        and body = "[]" and st = new_server and R = flask_add_url_rule]
    by blast
  show ?thesis using op a b r unfolding e1 e2 by simp
qed

text \<open>
  Claim C2. When the operation of the query is not one of the keys of \<open>OP_VERBS\<close>,
  \<open>check_method\<close> logs an error and exits with status 1, so that \<open>setup_endpoint\<close> exits
  with the URL map and the API summary unchanged. When the operation is recognized and the
  declared verb, in lower case, is not the verb of \<open>OP_VERBS\<close>, \<open>check_method\<close> logs one
  warning and returns, and registration goes on: with a list of roles and covered
  parameters it reaches the router with the warning in the log, and it returns with the
  URL map of the router when the router accepts the rule. When the verb is the one of
  \<open>OP_VERBS\<close>, \<open>check_method\<close> logs nothing.
\<close>

theorem check_method_contract:
  "(g sql = None \<longrightarrow>
      check_method g sql verb route st = SysExit 1 (logger ERROR (UnsupportedQuery sql route) st)
      \<and> (\<exists>st'. setup_endpoint P g R route verb sql auth ar d body st = SysExit 1 st'
            \<and> url_map st' = url_map st \<and> api_summary st' = api_summary st))
   \<and> (g sql = Some op \<and> OP_VERBS op \<noteq> lower verb \<longrightarrow>
      check_method g sql verb route st =
        Returned (logger WARNING (IncorrectVerb (upper verb) op route (upper (OP_VERBS op))) st)
      \<and> (\<forall>rs. ar = RoleList rs
            \<and> set (extract_params sql) - {''loggedId''}
                \<subseteq> set (if op = SELECT \<or> op = DELETE then extract_params route
                        else extract_params route @ body) \<longrightarrow>
            (\<exists>st'. (setup_endpoint P g R route verb sql auth ar d body st = Returned st'
                    \<or> (\<exists>e. setup_endpoint P g R route verb sql auth ar d body st = Raised e st'))
               \<and> (WARNING, IncorrectVerb (upper verb) op route (upper (OP_VERBS op)))
                    \<in> set (logs st')
               \<and> url_map st' = fst (add_url_rule_call R P route verb sql auth rs body op (url_map st)))
            \<and> (snd (add_url_rule_call R P route verb sql auth rs body op (url_map st)) = None \<longrightarrow>
                (\<exists>st'. setup_endpoint P g R route verb sql auth ar d body st = Returned st'
                   \<and> (WARNING, IncorrectVerb (upper verb) op route (upper (OP_VERBS op)))
                        \<in> set (logs st')
                   \<and> url_map st' =
                        fst (add_url_rule_call R P route verb sql auth rs body op (url_map st))))))
   \<and> (g sql = Some op \<and> OP_VERBS op = lower verb \<longrightarrow>
      check_method g sql verb route st = Returned st)"
proof -
  have c1: "g sql = None \<longrightarrow>
      check_method g sql verb route st = SysExit 1 (logger ERROR (UnsupportedQuery sql route) st)
      \<and> (\<exists>st'. setup_endpoint P g R route verb sql auth ar d body st = SysExit 1 st'
            \<and> url_map st' = url_map st \<and> api_summary st' = api_summary st)"
  proof
    assume n: "g sql = None"
    obtain st' where st': "setup_endpoint P g R route verb sql auth ar d body st = SysExit 1 st'"
      using n setup_endpoint_unsupported [where g = g and sql = sql and P = P and route = route
          and verb = verb and auth = auth and ar = ar and d = d and body = body and st = st
          and R = R]
      by blast
    show "check_method g sql verb route st = SysExit 1 (logger ERROR (UnsupportedQuery sql route) st)
      \<and> (\<exists>st'. setup_endpoint P g R route verb sql auth ar d body st = SysExit 1 st'
            \<and> url_map st' = url_map st \<and> api_summary st' = api_summary st)"
      using n st' setup_endpoint_exit [OF st']
        check_method_None [where g = g and sql = sql and verb = verb and route = route and st = st]
      by simp
  qed
  have c2a: "g sql = Some op \<and> OP_VERBS op \<noteq> lower verb \<longrightarrow>
      check_method g sql verb route st =
        Returned (logger WARNING (IncorrectVerb (upper verb) op route (upper (OP_VERBS op))) st)"
    by (simp add: check_method_Some)
  have c2b: "\<exists>st'. (setup_endpoint P g R route verb sql auth ar d body st = Returned st'
                    \<or> (\<exists>e. setup_endpoint P g R route verb sql auth ar d body st = Raised e st'))
               \<and> (WARNING, IncorrectVerb (upper verb) op route (upper (OP_VERBS op)))
                    \<in> set (logs st')
               \<and> url_map st' = fst (add_url_rule_call R P route verb sql auth rs body op (url_map st))"
    if h: "g sql = Some op" "OP_VERBS op \<noteq> lower verb" "ar = RoleList rs"
      "set (extract_params sql) - {''loggedId''}
         \<subseteq> set (if op = SELECT \<or> op = DELETE then extract_params route
                 else extract_params route @ body)" for rs
  proof (cases "snd (add_url_rule_call R P route verb sql auth rs body op (url_map st))")
    case None
    then show ?thesis
      using h setup_endpoint_accepted [where g = g and sql = sql and op = op
        and up = "if op = SELECT \<or> op = DELETE then extract_params route else extract_params route @ body"
        and route = route and body = body and P = P and verb = verb and auth = auth and rs = rs
        and d = d and st = st and R = R
        and m = "fst (add_url_rule_call R P route verb sql auth rs body op (url_map st))"]
      by (metis prod.collapse)
  next
    case (Some e)
    then show ?thesis
      using h setup_endpoint_rejected [where g = g and sql = sql and op = op
        and up = "if op = SELECT \<or> op = DELETE then extract_params route else extract_params route @ body"
        and route = route and body = body and P = P and verb = verb and auth = auth and rs = rs
        and d = d and st = st and R = R and e = e
        and m = "fst (add_url_rule_call R P route verb sql auth rs body op (url_map st))"]
      by (metis prod.collapse)
  qed
  have c2c: "\<exists>st'. setup_endpoint P g R route verb sql auth ar d body st = Returned st'
                   \<and> (WARNING, IncorrectVerb (upper verb) op route (upper (OP_VERBS op)))
                        \<in> set (logs st')
                   \<and> url_map st' =
                        fst (add_url_rule_call R P route verb sql auth rs body op (url_map st))"
    if h: "g sql = Some op" "OP_VERBS op \<noteq> lower verb" "ar = RoleList rs"
      "set (extract_params sql) - {''loggedId''}
         \<subseteq> set (if op = SELECT \<or> op = DELETE then extract_params route
                 else extract_params route @ body)"
      "snd (add_url_rule_call R P route verb sql auth rs body op (url_map st)) = None" for rs
    using h setup_endpoint_accepted [where g = g and sql = sql and op = op
        and up = "if op = SELECT \<or> op = DELETE then extract_params route else extract_params route @ body"
        and route = route and body = body and P = P and verb = verb and auth = auth and rs = rs
        and d = d and st = st and R = R
        and m = "fst (add_url_rule_call R P route verb sql auth rs body op (url_map st))"]
    by (metis prod.collapse)
  have c3: "g sql = Some op \<and> OP_VERBS op = lower verb \<longrightarrow>
      check_method g sql verb route st = Returned st"
    by (simp add: check_method_Some)
  show ?thesis using c1 c2a c2b c2c c3 by blast
qed

theorem check_method_contract_witness:
  "leading_keyword_op ''MERGE INTO users VALUES ($id)'' = None
   \<and> check_method leading_keyword_op ''MERGE INTO users VALUES ($id)'' ''post'' ''/users/$id'' new_server
       = SysExit 1 (logger ERROR (UnsupportedQuery ''MERGE INTO users VALUES ($id)'' ''/users/$id'') new_server)
   \<and> (\<exists>st'. setup_endpoint ''/api'' leading_keyword_op flask_add_url_rule ''/users/$id'' ''post''
          ''MERGE INTO users VALUES ($id)'' False (RoleList [PStr ''*'']) None [] new_server
          = SysExit 1 st' \<and> url_map st' = url_map new_server)
   \<and> leading_keyword_op ''SELECT * FROM users WHERE id = $id'' = Some SELECT
   \<and> check_method leading_keyword_op ''SELECT * FROM users WHERE id = $id'' ''POST'' ''/users/$id'' new_server
       = Returned (logger WARNING (IncorrectVerb ''POST'' SELECT ''/users/$id'' ''GET'') new_server)
   \<and> check_method leading_keyword_op ''SELECT * FROM users WHERE id = $id'' ''GET'' ''/users/$id'' new_server
       = Returned new_server"
proof -
  have m: "leading_keyword_op ''MERGE INTO users VALUES ($id)'' = None" by code_simp
  have s: "leading_keyword_op ''SELECT * FROM users WHERE id = $id'' = Some SELECT" by code_simp
  have v1: "OP_VERBS SELECT \<noteq> lower ''POST''" by code_simp
  have v2: "OP_VERBS SELECT = lower ''GET''" by code_simp
  have u1: "upper ''POST'' = ''POST''" by code_simp
  have u2: "upper (OP_VERBS SELECT) = ''GET''" by code_simp
  note t1 = check_method_contract [where g = leading_keyword_op
      and sql = "''MERGE INTO users VALUES ($id)''" and verb = "''post''" and route = "''/users/$id''"
      and st = new_server and P = "''/api''" and auth = False and ar = "RoleList [PStr ''*'']"
      and d = None and body = "[]" and R = flask_add_url_rule]
  note t2 = check_method_contract [where g = leading_keyword_op
      and sql = "''SELECT * FROM users WHERE id = $id''" and verb = "''POST''" and route = "''/users/$id''"
      and st = new_server and op = SELECT]
  note t3 = check_method_contract [where g = leading_keyword_op
      and sql = "''SELECT * FROM users WHERE id = $id''" and verb = "''GET''" and route = "''/users/$id''"
      and st = new_server and op = SELECT]
  have a: "check_method leading_keyword_op ''MERGE INTO users VALUES ($id)'' ''post'' ''/users/$id'' new_server
       = SysExit 1 (logger ERROR (UnsupportedQuery ''MERGE INTO users VALUES ($id)'' ''/users/$id'') new_server)
     \<and> (\<exists>st'. setup_endpoint ''/api'' leading_keyword_op flask_add_url_rule ''/users/$id'' ''post''
          ''MERGE INTO users VALUES ($id)'' False (RoleList [PStr ''*'']) None [] new_server
          = SysExit 1 st' \<and> url_map st' = url_map new_server)"
    using t1 m by blast
  have b: "check_method leading_keyword_op ''SELECT * FROM users WHERE id = $id'' ''POST'' ''/users/$id'' new_server
       = Returned (logger WARNING (IncorrectVerb ''POST'' SELECT ''/users/$id'' ''GET'') new_server)"
    using t2 s v1 unfolding u1 u2 by blast
  have c: "check_method leading_keyword_op ''SELECT * FROM users WHERE id = $id'' ''GET'' ''/users/$id'' new_server
       = Returned new_server"
    using t3 s v2 by blast
  show ?thesis using m s a b c by simp
qed

text \<open>
  Claim C9. \<open>check_auth_roles\<close> logs an error and exits with status 1 whenever
  \<open>allowed_roles\<close> is not a list, and then \<open>setup_endpoint\<close> exits with nothing installed.
  On a list it always returns: with one warning when \<open>auth_required\<close> is false and roles
  are specified (the list is neither empty nor the default \<open>["*"]\<close>), with one warning when
  \<open>auth_required\<close> is true and the list is empty, and with no record otherwise. In
  particular \<open>auth_required = False\<close> with \<open>["admin"]\<close> and \<open>auth_required = True\<close> with
  \<open>[]\<close> give a warning, and such an endpoint is registered (registration returns with the
  URL map of the router and the warning in the log) when the operation is recognized, the
  parameters are covered and the router accepts the rule.
\<close>

theorem check_auth_roles_contract:
  "check_auth_roles auth (NotAList v) verb route st
     = SysExit 1 (logger ERROR (RolesNotAList v (upper verb) route) st)
   \<and> (\<exists>st'. setup_endpoint P g R route verb sql auth (NotAList v) d body st = SysExit 1 st'
          \<and> url_map st' = url_map st \<and> api_summary st' = api_summary st)
   \<and> (\<not> auth \<and> rs \<noteq> [] \<and> rs \<noteq> [PStr ''*''] \<longrightarrow>
        check_auth_roles auth (RoleList rs) verb route st
          = Returned (logger WARNING (RolesWithoutAuth (upper verb) route) st))
   \<and> (auth \<and> rs = [] \<longrightarrow>
        check_auth_roles auth (RoleList rs) verb route st
          = Returned (logger WARNING (AuthWithoutRoles (upper verb) route) st))
   \<and> (\<not> (\<not> auth \<and> rs \<noteq> [] \<and> rs \<noteq> [PStr ''*'']) \<and> \<not> (auth \<and> rs = []) \<longrightarrow>
        check_auth_roles auth (RoleList rs) verb route st = Returned st)
   \<and> check_auth_roles False (RoleList [PStr ''admin'']) verb route st
        = Returned (logger WARNING (RolesWithoutAuth (upper verb) route) st)
   \<and> check_auth_roles True (RoleList []) verb route st
        = Returned (logger WARNING (AuthWithoutRoles (upper verb) route) st)
   \<and> (g sql = Some op
        \<and> set (extract_params sql) - {''loggedId''}
            \<subseteq> set (if op = SELECT \<or> op = DELETE then extract_params route
                    else extract_params route @ body)
        \<and> snd (add_url_rule_call R P route verb sql False [PStr ''admin''] body op (url_map st)) = None
       \<longrightarrow>
        (\<exists>st'. setup_endpoint P g R route verb sql False (RoleList [PStr ''admin'']) d body st
                 = Returned st'
            \<and> (WARNING, RolesWithoutAuth (upper verb) route) \<in> set (logs st')
            \<and> url_map st' =
                 fst (add_url_rule_call R P route verb sql False [PStr ''admin''] body op (url_map st))))
   \<and> (g sql = Some op
        \<and> set (extract_params sql) - {''loggedId''}
            \<subseteq> set (if op = SELECT \<or> op = DELETE then extract_params route
                    else extract_params route @ body)
        \<and> snd (add_url_rule_call R P route verb sql True [] body op (url_map st)) = None
       \<longrightarrow>
        (\<exists>st'. setup_endpoint P g R route verb sql True (RoleList []) d body st = Returned st'
            \<and> (WARNING, AuthWithoutRoles (upper verb) route) \<in> set (logs st')
            \<and> url_map st' =
                 fst (add_url_rule_call R P route verb sql True [] body op (url_map st))))"
proof -
  let ?up = "if op = SELECT \<or> op = DELETE then extract_params route else extract_params route @ body"
  have c1: "check_auth_roles auth (NotAList v) verb route st
     = SysExit 1 (logger ERROR (RolesNotAList v (upper verb) route) st)"
    by (rule check_auth_roles_NotAList)
  have c2: "\<exists>st'. setup_endpoint P g R route verb sql auth (NotAList v) d body st = SysExit 1 st'
          \<and> url_map st' = url_map st \<and> api_summary st' = api_summary st"
  proof -
    obtain st' where st': "setup_endpoint P g R route verb sql auth (NotAList v) d body st = SysExit 1 st'"
      using setup_endpoint_not_a_list by blast
    then show ?thesis using setup_endpoint_exit [OF st'] by simp
  qed
  have c3: "\<not> auth \<and> rs \<noteq> [] \<and> rs \<noteq> [PStr ''*''] \<longrightarrow>
        check_auth_roles auth (RoleList rs) verb route st
          = Returned (logger WARNING (RolesWithoutAuth (upper verb) route) st)"
    by (simp add: check_auth_roles_RoleList)
  have c4: "auth \<and> rs = [] \<longrightarrow>
        check_auth_roles auth (RoleList rs) verb route st
          = Returned (logger WARNING (AuthWithoutRoles (upper verb) route) st)"
    by (simp add: check_auth_roles_RoleList)
  have c5: "\<not> (\<not> auth \<and> rs \<noteq> [] \<and> rs \<noteq> [PStr ''*'']) \<and> \<not> (auth \<and> rs = []) \<longrightarrow>
        check_auth_roles auth (RoleList rs) verb route st = Returned st"
    by (simp add: check_auth_roles_RoleList)
  have c6: "check_auth_roles False (RoleList [PStr ''admin'']) verb route st
        = Returned (logger WARNING (RolesWithoutAuth (upper verb) route) st)"
    by (simp add: check_auth_roles_RoleList)
  have c7: "check_auth_roles True (RoleList []) verb route st
        = Returned (logger WARNING (AuthWithoutRoles (upper verb) route) st)"
    by (simp add: check_auth_roles_RoleList)
  have c8: "g sql = Some op \<and> set (extract_params sql) - {''loggedId''} \<subseteq> set ?up
        \<and> snd (add_url_rule_call R P route verb sql False [PStr ''admin''] body op (url_map st)) = None
       \<longrightarrow>
        (\<exists>st'. setup_endpoint P g R route verb sql False (RoleList [PStr ''admin'']) d body st
                 = Returned st'
            \<and> (WARNING, RolesWithoutAuth (upper verb) route) \<in> set (logs st')
            \<and> url_map st' =
                 fst (add_url_rule_call R P route verb sql False [PStr ''admin''] body op (url_map st)))"
    using setup_endpoint_accepted [where g = g and sql = sql and op = op and up = ?up
        and route = route and body = body and P = P and verb = verb and auth = False
        and rs = "[PStr ''admin'']" and d = d and st = st and R = R
        and m = "fst (add_url_rule_call R P route verb sql False [PStr ''admin''] body op (url_map st))"]
    by (auto simp: prod_eq_iff)
  have c9: "g sql = Some op \<and> set (extract_params sql) - {''loggedId''} \<subseteq> set ?up
        \<and> snd (add_url_rule_call R P route verb sql True [] body op (url_map st)) = None
       \<longrightarrow>
        (\<exists>st'. setup_endpoint P g R route verb sql True (RoleList []) d body st = Returned st'
            \<and> (WARNING, AuthWithoutRoles (upper verb) route) \<in> set (logs st')
            \<and> url_map st' =
                 fst (add_url_rule_call R P route verb sql True [] body op (url_map st)))"
    using setup_endpoint_accepted [where g = g and sql = sql and op = op and up = ?up
        and route = route and body = body and P = P and verb = verb and auth = True
        and rs = "[]" and d = d and st = st and R = R
        and m = "fst (add_url_rule_call R P route verb sql True [] body op (url_map st))"]
    by (auto simp: prod_eq_iff)
  show ?thesis using c1 c2 c3 c4 c5 c6 c7 c8 c9 by blast
qed

theorem check_auth_roles_contract_witness:
  "leading_keyword_op ''SELECT * FROM users'' = Some SELECT
   \<and> (\<exists>st'. setup_endpoint ''/api/'' leading_keyword_op flask_add_url_rule ''/users'' ''get''
          ''SELECT * FROM users'' False (RoleList [PStr ''admin'']) None [] new_server = Returned st'
        \<and> (WARNING, RolesWithoutAuth ''GET'' ''/users'') \<in> set (logs st')
        \<and> map rule (url_map st') = [''/api/users''])
   \<and> (\<exists>st'. setup_endpoint ''/api/'' leading_keyword_op flask_add_url_rule ''/users'' ''get''
          ''SELECT * FROM users'' True (RoleList []) None [] new_server = Returned st'
        \<and> (WARNING, AuthWithoutRoles ''GET'' ''/users'') \<in> set (logs st')
        \<and> map rule (url_map st') = [''/api/users''])
   \<and> check_auth_roles True (NotAList (PStr ''admin'')) ''get'' ''/users'' new_server
        = SysExit 1 (logger ERROR (RolesNotAList (PStr ''admin'') ''GET'' ''/users'') new_server)"
proof -
  let ?sql = "''SELECT * FROM users''"
  have s: "leading_keyword_op ?sql = Some SELECT" by code_simp
  have e1: "extract_params ?sql = []" by code_simp
  have e2: "extract_params ''/users'' = []" by code_simp
  have u: "upper ''get'' = ''GET''" by code_simp
  have r1: "snd (add_url_rule_call flask_add_url_rule ''/api/'' ''/users'' ''get'' ?sql False
                  [PStr ''admin''] [] SELECT (url_map new_server)) = None
            \<and> map rule (fst (add_url_rule_call flask_add_url_rule ''/api/'' ''/users'' ''get'' ?sql False
                  [PStr ''admin''] [] SELECT (url_map new_server))) = [''/api/users'']"
    by code_simp
  have r2: "snd (add_url_rule_call flask_add_url_rule ''/api/'' ''/users'' ''get'' ?sql True
                  [] [] SELECT (url_map new_server)) = None
            \<and> map rule (fst (add_url_rule_call flask_add_url_rule ''/api/'' ''/users'' ''get'' ?sql True
                  [] [] SELECT (url_map new_server))) = [''/api/users'']"
    by code_simp
  note t = check_auth_roles_contract [where g = leading_keyword_op and sql = ?sql
      and op = SELECT and route = "''/users''" and verb = "''get''" and body = "[]" and d = None
      and P = "''/api/''" and st = new_server and auth = True and v = "PStr ''admin''"
      and R = flask_add_url_rule]
  have cov: "set (extract_params ?sql) - {''loggedId''}
               \<subseteq> set (if SELECT = SELECT \<or> SELECT = DELETE then extract_params ''/users''
                       else extract_params ''/users'' @ [])"
    by (simp add: e1)
  have a1: "\<exists>st'. setup_endpoint ''/api/'' leading_keyword_op flask_add_url_rule ''/users'' ''get''
          ?sql False (RoleList [PStr ''admin'']) None [] new_server = Returned st'
        \<and> (WARNING, RolesWithoutAuth (upper ''get'') ''/users'') \<in> set (logs st')
        \<and> url_map st' = fst (add_url_rule_call flask_add_url_rule ''/api/'' ''/users'' ''get'' ?sql
                  False [PStr ''admin''] [] SELECT (url_map new_server))"
    using t s cov r1 by blast
  have a: "\<exists>st'. setup_endpoint ''/api/'' leading_keyword_op flask_add_url_rule ''/users'' ''get''
          ?sql False (RoleList [PStr ''admin'']) None [] new_server = Returned st'
        \<and> (WARNING, RolesWithoutAuth ''GET'' ''/users'') \<in> set (logs st')
        \<and> map rule (url_map st') = [''/api/users'']"
    using a1 r1 unfolding u by metis
  have b1: "\<exists>st'. setup_endpoint ''/api/'' leading_keyword_op flask_add_url_rule ''/users'' ''get''
          ?sql True (RoleList []) None [] new_server = Returned st'
        \<and> (WARNING, AuthWithoutRoles (upper ''get'') ''/users'') \<in> set (logs st')
        \<and> url_map st' = fst (add_url_rule_call flask_add_url_rule ''/api/'' ''/users'' ''get'' ?sql
                  True [] [] SELECT (url_map new_server))"
    using t s cov r2 by blast
  have b: "\<exists>st'. setup_endpoint ''/api/'' leading_keyword_op flask_add_url_rule ''/users'' ''get''
          ?sql True (RoleList []) None [] new_server = Returned st'
        \<and> (WARNING, AuthWithoutRoles ''GET'' ''/users'') \<in> set (logs st')
        \<and> map rule (url_map st') = [''/api/users'']"
    using b1 r2 unfolding u by metis
  have c: "check_auth_roles True (NotAList (PStr ''admin'')) ''get'' ''/users'' new_server
        = SysExit 1 (logger ERROR (RolesNotAList (PStr ''admin'') ''GET'' ''/users'') new_server)"
    using t unfolding u by blast
  show ?thesis using s a b c by blast
qed

section \<open>Properties of the authorization gate\<close>






lemma check_session_role:
  "role_setting env = Some c \<Longrightarrow> c \<noteq> [] \<Longrightarrow>
   check_session env (Some user_data) roles =
     (if find_role user_data c \<in> set roles \<or> PStr ''*'' \<in> set roles then Inr ()
      else Inl (HTTPError 401 ''Unauthorized''))"
  by (auto simp: check_session_def Let_def)



lemma find_role_first:
  "list_all (\<lambda>(k', v'). lower k' \<noteq> lower c) pre \<Longrightarrow> lower k = lower c \<Longrightarrow>
   find_role (pre @ (k, v) # post) c = v"
  by (induction pre) (auto simp: find_role_def)

lemma find_role_none:
  "list_all (\<lambda>(k', v'). lower k' \<noteq> lower c) user_data \<Longrightarrow> find_role user_data c = PNone"
  by (induction user_data) (auto simp: find_role_def)

text \<open>
  Claim C10. \<open>check_session\<close> finds the role of the identity under the first key that
  equals the configured column name when both are put in lower case, and looks the value
  up in \<open>allowed_roles\<close> as it is: a role value that is not in the list is rejected with
  \<open>HTTPError 401\<close> although an allowed role differs from it only in the case of letters,
  unless the list contains \<open>"*"\<close>.
\<close>

theorem role_check_case_contract:
  "(list_all (\<lambda>(k', v'). lower k' \<noteq> lower c) pre \<and> lower k = lower c
      \<longrightarrow> find_role (pre @ (k, v) # post) c = v)
   \<and> (role_setting env = Some c \<and> c \<noteq> [] \<and> find_role user_data c = PStr r
       \<and> PStr r \<notin> set roles \<and> PStr ''*'' \<notin> set roles
       \<and> list_ex (\<lambda>a. lower (py_str a) = lower r) roles
      \<longrightarrow> check_session env (Some user_data) roles = Inl (HTTPError 401 ''Unauthorized''))
   \<and> (role_setting env = Some c \<and> c \<noteq> [] \<and> PStr ''*'' \<in> set roles
      \<longrightarrow> check_session env (Some user_data) roles = Inr ())
   \<and> (role_setting env = Some c \<and> c \<noteq> [] \<and> find_role user_data c \<in> set roles
      \<longrightarrow> check_session env (Some user_data) roles = Inr ())"
  using find_role_first [of c pre k v post]
  by (auto simp: check_session_role)

theorem role_check_case_contract_witness:
  "find_role [(''id'', PInt 7), (''Role'', PStr ''Admin'')] ''role'' = PStr ''Admin''
   \<and> check_session example_env (Some [(''id'', PInt 7), (''Role'', PStr ''Admin'')])
        [PStr ''admin'', PStr ''staff''] = Inl (HTTPError 401 ''Unauthorized'')
   \<and> check_session example_env (Some [(''id'', PInt 7), (''Role'', PStr ''Admin'')])
        [PStr ''admin'', PStr ''*''] = Inr ()"
proof -
  let ?ud = "[(''id'', PInt 7), (''Role'', PStr ''Admin'')]"
  have h1: "list_all (\<lambda>(k', v'). lower k' \<noteq> lower ''role'') [(''id'', PInt 7)]
            \<and> lower ''Role'' = lower ''role''" by code_simp
  have h2: "role_setting example_env = Some ''role'' \<and> ''role'' \<noteq> []"
    by (simp add: example_env_def)
  have h3: "PStr ''Admin'' \<notin> set [PStr ''admin'', PStr ''staff'']
            \<and> PStr ''*'' \<notin> set [PStr ''admin'', PStr ''staff'']
            \<and> list_ex (\<lambda>a. lower (py_str a) = lower ''Admin'') [PStr ''admin'', PStr ''staff'']"
    by code_simp
  have h4: "PStr ''*'' \<in> set [PStr ''admin'', PStr ''*'']" by simp
  note t1 = role_check_case_contract [where c = "''role''" and pre = "[(''id'', PInt 7)]"
      and k = "''Role''" and v = "PStr ''Admin''" and post = "[]" and env = example_env
      and user_data = ?ud and r = "''Admin''" and roles = "[PStr ''admin'', PStr ''staff'']"]
  note t2 = role_check_case_contract [where c = "''role''" and env = example_env
      and user_data = ?ud and roles = "[PStr ''admin'', PStr ''*'']"]
  have a: "find_role ?ud ''role'' = PStr ''Admin''" using t1 h1 by simp
  have b: "check_session example_env (Some ?ud) [PStr ''admin'', PStr ''staff'']
             = Inl (HTTPError 401 ''Unauthorized'')"
    using t1 a h2 h3 by blast
  have c: "check_session example_env (Some ?ud) [PStr ''admin'', PStr ''*''] = Inr ()"
    using t2 h2 h4 by blast
  show ?thesis using a b c by simp
qed

section \<open>Properties of the result shaper\<close>

lemma map_of_filter_fst:
  "map_of (filter (\<lambda>q. fst q \<noteq> a) ps) k = (if k = a then None else map_of ps k)"
  by (induction ps) auto

lemma set_args_items: "(k, v) \<in> set (args_items qs) \<longleftrightarrow> map_of qs k = Some v"
proof (induction qs arbitrary: k v rule: args_items.induct)
  case 1
  show ?case by simp
next
  case (2 p ps)
  show ?case using 2 [of k v] map_of_filter_fst [of "fst p" ps k] by (cases p) auto
qed

lemma filter_func_row_matches:
  "filter_func (filter_criteria qs) elem = row_matches qs elem"
proof
  assume f: "filter_func (filter_criteria qs) elem"
  show "row_matches qs elem"
    unfolding row_matches_def
  proof (intro allI impI)
    fix k v
    assume h: "args_get qs k = Some v \<and> \<not> startswith k ''_''"
    then have "(k, v) \<in> set (filter_criteria qs)"
      by (simp add: filter_criteria_def set_args_items args_get_def)
    with f have "case dict_get elem k of None \<Rightarrow> True | Some x \<Rightarrow> lower (py_str x) = lower v"
      unfolding filter_func_def list_all_iff by fastforce
    then show "dict_get elem k = None \<or> (\<exists>x. dict_get elem k = Some x \<and> lower (py_str x) = lower v)"
      by (cases "dict_get elem k") auto
  qed
next
  assume r: "row_matches qs elem"
  show "filter_func (filter_criteria qs) elem"
    unfolding filter_func_def list_all_iff
  proof
    fix p
    assume "p \<in> set (filter_criteria qs)"
    then have "p \<in> set (args_items qs) \<and> \<not> startswith (fst p) ''_''"
      unfolding filter_criteria_def set_filter by blast
    then obtain k v where p: "p = (k, v)" and h: "args_get qs k = Some v \<and> \<not> startswith k ''_''"
      using set_args_items [of "fst p" "snd p" qs] by (cases p) (simp add: args_get_def)
    from r h have "dict_get elem k = None \<or> (\<exists>x. dict_get elem k = Some x \<and> lower (py_str x) = lower v)"
      unfolding row_matches_def by blast
    then show "case p of (k, v) \<Rightarrow> (case dict_get elem k of None \<Rightarrow> True | Some x \<Rightarrow> lower (py_str x) = lower v)"
      using p by auto
  qed
qed

lemma filter_step_row_matches:
  "filter (filter_func (filter_criteria qs)) data = filter (row_matches qs) data"
  by (simp add: filter_func_row_matches cong: filter_cong)

lemma set_insort_lt: "set (insort_lt x ys) = insert x (set ys)"
  by (induction ys) auto

lemma mset_insort_lt: "mset (insort_lt x ys) = add_mset x (mset ys)"
  by (induction ys) auto

lemma mset_stable_sort: "mset (stable_sort xs) = mset xs"
  by (induction xs) (auto simp: stable_sort_def mset_insort_lt)

lemma set_stable_sort: "set (stable_sort xs) = set xs"
  using mset_stable_sort [of xs] by (metis set_mset_mset)

lemma decorate_Inr:
  "decorate f xs = Inr ks \<Longrightarrow> map snd ks = xs \<and> list_all (\<lambda>p. f (snd p) = Inr (fst p)) ks"
proof (induction xs arbitrary: ks)
  case Nil
  then show ?case by simp
next
  case (Cons x xs)
  then show ?case by (auto split: sum.splits)
qed

lemma list_sort_mset:
  assumes "list_sort f r xs = Inr out"
  shows "mset out = mset xs"
proof -
  from assms obtain ks where ks: "decorate f xs = Inr ks"
    and out: "out = (if r then map snd (rev (stable_sort (rev ks))) else map snd (stable_sort ks))"
    by (auto simp: list_sort_def split: sum.splits if_splits)
  have "mset out = mset (map snd ks)"
    using out by (simp add: mset_stable_sort)
  then show ?thesis using decorate_Inr [OF ks] by simp
qed

lemma sort_step_mset:
  assumes "sort_step sp r xs = Inr out"
  shows "mset out = mset xs"
proof (cases "list_sort (order_key_func sp) r xs")
  case (Inl e)
  then show ?thesis using assms by (cases e) (auto simp: sort_step_def)
next
  case (Inr ys)
  then show ?thesis using assms list_sort_mset [OF Inr] by (simp add: sort_step_def)
qed

lemma set_py_slice: "set (py_slice xs a b) \<subseteq> set xs"
  unfolding py_slice_def Let_def by (meson set_take_subset set_drop_subset subset_trans)

lemma filter_query_results_sound:
  assumes "filter_query_results dl data qs = Inr out"
  shows "set out \<subseteq> {r \<in> set data. row_matches qs r}"
proof -
  let ?res = "filter (row_matches qs) data"
  from assms obtain sorted_res where
    s: "sort_step (args_get qs ''_sort'') (args_get qs ''_order'' = Some ''desc'') ?res = Inr sorted_res"
    and o: "out = paginate (int_arg dl qs ''_limit'') (int_arg dl qs ''_page'') sorted_res"
    by (auto simp: filter_query_results_def Let_def filter_step_row_matches split: sum.splits)
  have "set sorted_res = set ?res" using sort_step_mset [OF s] by (metis set_mset_mset)
  moreover have "set out \<subseteq> set sorted_res"
    unfolding o paginate_def Let_def by (rule set_py_slice)
  ultimately show ?thesis by auto
qed

lemma paginate_None: "paginate None pg xs = xs"
  by (simp add: paginate_def truthy_def py_slice_def slice_index_def)

lemma sort_step_None: "sort_step None r xs = Inr xs"
  by (cases xs) (auto simp: sort_step_def list_sort_def order_key_func_def mixed_keys_def stable_sort_def)

lemma filter_query_results_plain:
  assumes "args_get qs ''_sort'' = None" "args_get qs ''_limit'' = None"
  shows "filter_query_results dl data qs = Inr (filter (row_matches qs) data)"
  using assms
  by (simp add: filter_query_results_def int_arg_def sort_step_None paginate_None filter_step_row_matches)

lemma filter_query_results_no_limit:
  assumes "args_get qs ''_limit'' = None"
  shows "filter_query_results dl data qs = filter_query_results 0 data qs"
  using assms
  by (simp add: filter_query_results_def int_arg_def Let_def paginate_None split: sum.splits)

text \<open>
  Claim C6. For every result set and query string, the filter of \<open>filter_query_results\<close>
  keeps exactly the rows in which every key of the query string that does not start with
  an underscore is no column of the row, or is a column whose value, as a string, equals
  the value of the query string without regard to case; the rows it keeps stay in their
  order (the result is the list of rows filtered). Without \<open>_sort\<close> and \<open>_limit\<close> this is
  the result of \<open>filter_query_results\<close>; with them, every returned row passes the filter.
\<close>

theorem filter_contract:
  "filter (filter_func (filter_criteria qs)) data = filter (row_matches qs) data
   \<and> (args_get qs ''_sort'' = None \<and> args_get qs ''_limit'' = None \<longrightarrow>
        filter_query_results dl data qs = Inr (filter (row_matches qs) data))
   \<and> (\<forall>out. filter_query_results dl data qs = Inr out \<longrightarrow>
        list_all (row_matches qs) out \<and> set out \<subseteq> set data)"
  using filter_step_row_matches [of qs data]
    filter_query_results_plain [where qs = qs and data = data and dl = dl]
    filter_query_results_sound [where qs = qs and data = data and dl = dl]
  by (auto simp: list_all_iff)

theorem filter_contract_witness:
  "filter_query_results 4300
      [[(''name'', PStr ''Bob''), (''age'', PInt 30)],
       [(''name'', PStr ''Al''), (''age'', PInt 30)],
       [(''age'', PInt 30)],
       [(''name'', PStr ''BOB''), (''age'', PInt 31)]]
      [(''name'', ''bob''), (''age'', ''30''), (''_x'', ''1''), (''city'', ''Rome'')]
    = Inr [[(''name'', PStr ''Bob''), (''age'', PInt 30)], [(''age'', PInt 30)]]
   \<and> filter
        (row_matches [(''name'', ''bob''), (''age'', ''30''), (''_x'', ''1''), (''city'', ''Rome'')])
        [[(''name'', PStr ''Bob''), (''age'', PInt 30)],
         [(''name'', PStr ''Al''), (''age'', PInt 30)],
         [(''age'', PInt 30)],
         [(''name'', PStr ''BOB''), (''age'', PInt 31)]]
    = [[(''name'', PStr ''Bob''), (''age'', PInt 30)], [(''age'', PInt 30)]]"
proof -
  let ?qs = "[(''name'', ''bob''), (''age'', ''30''), (''_x'', ''1''), (''city'', ''Rome'')]"
  let ?data = "[[(''name'', PStr ''Bob''), (''age'', PInt 30)],
       [(''name'', PStr ''Al''), (''age'', PInt 30)],
       [(''age'', PInt 30)],
       [(''name'', PStr ''BOB''), (''age'', PInt 31)]]"
  have e: "filter (filter_func (filter_criteria ?qs)) ?data
           = [[(''name'', PStr ''Bob''), (''age'', PInt 30)], [(''age'', PInt 30)]]"
    by code_simp
  have h: "args_get ?qs ''_sort'' = None \<and> args_get ?qs ''_limit'' = None" by code_simp
  note t = filter_contract [where qs = ?qs and data = ?data and dl = 4300]
  have a: "filter (row_matches ?qs) ?data
           = [[(''name'', PStr ''Bob''), (''age'', PInt 30)], [(''age'', PInt 30)]]"
    using t e by simp
  have b: "filter_query_results 4300 ?data ?qs = Inr (filter (row_matches ?qs) ?data)"
    using t h by blast
  show ?thesis using a b by simp
qed

lemma key_lt_Min_right: "key_lt a MinKey \<noteq> Inr True"
  by (cases a) auto

lemma key_lt_Min_left: "b \<noteq> MinKey \<Longrightarrow> key_lt MinKey b = Inr True"
  by (cases b) auto

lemma insort_lt_nulls:
  "sorted_wrt nulls_before ys \<Longrightarrow> sorted_wrt nulls_before (insort_lt x ys)"
proof (induction ys)
  case Nil
  show ?case by simp
next
  case (Cons y ys)
  show ?case
  proof (cases "key_lt (fst y) (fst x) = Inr True")
    case True
    then have "fst x \<noteq> MinKey" using key_lt_Min_right [of "fst y"] by auto
    then show ?thesis using True Cons by (auto simp: set_insort_lt nulls_before_def)
  next
    case False
    then have "fst x = MinKey \<or> fst y \<noteq> MinKey" using key_lt_Min_left [of "fst x"] by auto
    then show ?thesis using False Cons by (auto simp: nulls_before_def)
  qed
qed

lemma stable_sort_nulls: "sorted_wrt nulls_before (stable_sort xs)"
  by (induction xs) (auto simp: stable_sort_def insort_lt_nulls)

lemma sorted_wrt_nulls_split:
  "sorted_wrt nulls_before xs \<Longrightarrow>
   xs = filter (\<lambda>p. fst p = MinKey) xs @ filter (\<lambda>p. fst p \<noteq> MinKey) xs"
proof (induction xs)
  case Nil
  show ?case by simp
next
  case (Cons x xs)
  show ?case
  proof (cases "fst x = MinKey")
    case True
    then show ?thesis using Cons by simp
  next
    case False
    then have "\<forall>y\<in>set xs. fst y \<noteq> MinKey" using Cons.prems by (auto simp: nulls_before_def)
    then have "filter (\<lambda>p. fst p = MinKey) xs = []" by (simp add: filter_empty_conv)
    then show ?thesis using False Cons by simp
  qed
qed

lemma stable_sort_nulls_first:
  "stable_sort xs = filter (\<lambda>p. fst p = MinKey) (stable_sort xs)
                    @ filter (\<lambda>p. fst p \<noteq> MinKey) (stable_sort xs)"
  by (rule sorted_wrt_nulls_split) (rule stable_sort_nulls)

lemma rev_stable_sort_nulls_last:
  "rev (stable_sort xs) = filter (\<lambda>p. fst p \<noteq> MinKey) (rev (stable_sort xs))
                          @ filter (\<lambda>p. fst p = MinKey) (rev (stable_sort xs))"
proof -
  have "rev (stable_sort xs) = rev (filter (\<lambda>p. fst p = MinKey) (stable_sort xs)
                    @ filter (\<lambda>p. fst p \<noteq> MinKey) (stable_sort xs))"
    using stable_sort_nulls_first [of xs] by simp
  then show ?thesis by (simp add: rev_filter)
qed

lemma order_key_func_Min:
  "order_key_func (Some c) elem = Inr k \<Longrightarrow> (k = MinKey) = null_at c elem"
  by (auto simp: order_key_func_def null_at_def dict_index_def dict_get_def
      split: option.splits pyval.splits)

lemma map_snd_filter_keyed:
  assumes "list_all (\<lambda>p. order_key_func (Some c) (snd p) = Inr (fst p)) ks"
  shows "map snd (filter (\<lambda>p. fst p = MinKey) ks) = filter (null_at c) (map snd ks)"
    and "map snd (filter (\<lambda>p. fst p \<noteq> MinKey) ks) = filter (\<lambda>r. \<not> null_at c r) (map snd ks)"
  using assms by (induction ks) (auto simp: order_key_func_Min)

lemma keyed_perm:
  assumes "list_all P ks" "set ks' = set ks"
  shows "list_all P ks'"
  using assms by (simp add: list_all_iff)

lemma decorate_total:
  "list_all (\<lambda>x. \<exists>k. f x = Inr k) xs \<Longrightarrow> \<exists>ks. decorate f xs = Inr ks"
  by (induction xs) auto

lemma decorate_KeyError:
  "list_ex (\<lambda>x. f x = Inl KeyError) xs \<Longrightarrow> list_all (\<lambda>x. f x = Inl KeyError \<or> (\<exists>k. f x = Inr k)) xs
   \<Longrightarrow> decorate f xs = Inl KeyError"
  by (induction xs) (auto split: sum.splits)

lemma order_key_func_cases:
  "order_key_func sp elem = Inl KeyError \<or> (\<exists>k. order_key_func sp elem = Inr k)"
  by (auto simp: order_key_func_def dict_index_def split: option.splits pyval.splits)

lemma sort_step_missing_column:
  assumes "list_ex (\<lambda>elem. dict_get elem c = None) rows"
  shows "sort_step (Some c) r rows = Inr rows"
proof -
  have "dict_get elem c = None \<Longrightarrow> order_key_func (Some c) elem = Inl KeyError" for elem
    by (simp add: order_key_func_def dict_index_def dict_get_def)
  then have "list_ex (\<lambda>x. order_key_func (Some c) x = Inl KeyError) rows"
    using assms unfolding list_ex_iff by blast
  moreover have "list_all (\<lambda>x. order_key_func (Some c) x = Inl KeyError
      \<or> (\<exists>k. order_key_func (Some c) x = Inr k)) rows"
    using order_key_func_cases by (simp add: list_all_iff)
  ultimately have "decorate (order_key_func (Some c)) rows = Inl KeyError"
    by (rule decorate_KeyError)
  then show ?thesis by (simp add: sort_step_def list_sort_def)
qed

lemma not_mixed_int:
  assumes "decorate (order_key_func (Some c)) rows = Inr ks" "list_all (int_or_null_at c) rows"
  shows "\<not> mixed_keys (map fst ks)"
proof -
  have "list_all (\<lambda>p. \<not> is_str_key (fst p)) ks"
    using assms
  proof (induction rows arbitrary: ks)
    case Nil
    then show ?case by simp
  next
    case (Cons x xs)
    then show ?case
      by (auto simp: int_or_null_at_def order_key_func_def dict_index_def dict_get_def is_str_key_def
          split: sum.splits option.splits pyval.splits)
  qed
  then show ?thesis by (auto simp: mixed_keys_def list_all_iff list_ex_iff)
qed

lemma not_mixed_str:
  assumes "decorate (order_key_func (Some c)) rows = Inr ks" "list_all (str_or_null_at c) rows"
  shows "\<not> mixed_keys (map fst ks)"
proof -
  have "list_all (\<lambda>p. \<not> is_int_key (fst p)) ks"
    using assms
  proof (induction rows arbitrary: ks)
    case Nil
    then show ?case by simp
  next
    case (Cons x xs)
    then show ?case
      by (auto simp: str_or_null_at_def order_key_func_def dict_index_def dict_get_def is_int_key_def
          split: sum.splits option.splits pyval.splits)
  qed
  then show ?thesis by (auto simp: mixed_keys_def list_all_iff list_ex_iff)
qed

lemma has_key_typed:
  "int_or_null_at c elem \<or> str_or_null_at c elem \<Longrightarrow> \<exists>k. order_key_func (Some c) elem = Inr k"
  by (auto simp: int_or_null_at_def str_or_null_at_def order_key_func_def dict_index_def dict_get_def
      split: option.splits pyval.splits)

lemma sort_step_nulls:
  assumes "list_all (int_or_null_at c) rows \<or> list_all (str_or_null_at c) rows"
  shows "\<exists>out. sort_step (Some c) r rows = Inr out \<and> mset out = mset rows
     \<and> (if r then out = filter (\<lambda>elem. \<not> null_at c elem) out @ filter (null_at c) out
         else out = filter (null_at c) out @ filter (\<lambda>elem. \<not> null_at c elem) out)"
proof -
  have "list_all (\<lambda>x. \<exists>k. order_key_func (Some c) x = Inr k) rows"
    using assms has_key_typed [of c] by (auto simp: list_all_iff)
  then obtain ks where ks: "decorate (order_key_func (Some c)) rows = Inr ks"
    using decorate_total by blast
  have nm: "\<not> mixed_keys (map fst ks)"
    using assms not_mixed_int [OF ks] not_mixed_str [OF ks] by blast
  have keyed: "list_all (\<lambda>p. order_key_func (Some c) (snd p) = Inr (fst p)) ks"
    using decorate_Inr [OF ks] by simp
  define out where "out = (if r then map snd (rev (stable_sort (rev ks))) else map snd (stable_sort ks))"
  have run: "sort_step (Some c) r rows = Inr out"
    using ks nm by (simp add: sort_step_def list_sort_def out_def)
  have perm: "mset out = mset rows" using sort_step_mset [OF run] .
  have shape: "if r then out = filter (\<lambda>elem. \<not> null_at c elem) out @ filter (null_at c) out
         else out = filter (null_at c) out @ filter (\<lambda>elem. \<not> null_at c elem) out"
  proof (cases r)
    case True
    let ?s = "rev (stable_sort (rev ks))"
    have k: "list_all (\<lambda>p. order_key_func (Some c) (snd p) = Inr (fst p)) ?s"
      using keyed by (rule keyed_perm) (simp add: set_stable_sort)
    have "map snd ?s = map snd (filter (\<lambda>p. fst p \<noteq> MinKey) ?s) @ map snd (filter (\<lambda>p. fst p = MinKey) ?s)"
      using rev_stable_sort_nulls_last [of "rev ks"] by (metis map_append)
    then show ?thesis using True map_snd_filter_keyed [OF k] by (simp add: out_def)
  next
    case False
    let ?s = "stable_sort ks"
    have k: "list_all (\<lambda>p. order_key_func (Some c) (snd p) = Inr (fst p)) ?s"
      using keyed by (rule keyed_perm) (simp add: set_stable_sort)
    have "map snd ?s = map snd (filter (\<lambda>p. fst p = MinKey) ?s) @ map snd (filter (\<lambda>p. fst p \<noteq> MinKey) ?s)"
      using stable_sort_nulls_first [of ks] by (metis map_append)
    then show ?thesis using False map_snd_filter_keyed [OF k] by (simp add: out_def)
  qed
  show ?thesis using run perm shape by blast
qed

lemma key_lt_MinKey: "key_lt MinKey k = Inr (k \<noteq> MinKey) \<and> key_lt k MinKey = Inr False"
  by (cases k) auto

text \<open>
  Claim C4. A row whose value in the sort column is null is keyed with the sentinel, which
  compares below every other key and raises nothing. When every row has the sort column
  and its values are integers or null (or strings or null), sorting succeeds, the result is
  a permutation of the rows, and all rows with a null come first in ascending order and last
  in descending order. The rows \<open>[{v:null},{v:5},{v:2}]\<close> sorted by \<open>v\<close> give
  \<open>[{v:null},{v:2},{v:5}]\<close>, and \<open>[{v:5},{v:2},{v:null}]\<close> with \<open>_order=desc\<close>. When some
  row does not have the sort column, the sort is skipped and the rows keep their order.
\<close>

theorem sort_nulls_contract:
  "(null_at c elem \<longrightarrow> order_key_func (Some c) elem = Inr MinKey)
   \<and> key_lt MinKey k = Inr (k \<noteq> MinKey) \<and> key_lt k MinKey = Inr False
   \<and> (list_all (int_or_null_at c) rows \<or> list_all (str_or_null_at c) rows \<longrightarrow>
        (\<exists>out. sort_step (Some c) False rows = Inr out \<and> mset out = mset rows
           \<and> out = filter (null_at c) out @ filter (\<lambda>elem. \<not> null_at c elem) out)
        \<and> (\<exists>out. sort_step (Some c) True rows = Inr out \<and> mset out = mset rows
           \<and> out = filter (\<lambda>elem. \<not> null_at c elem) out @ filter (null_at c) out))
   \<and> (list_ex (\<lambda>elem. dict_get elem c = None) rows \<longrightarrow> sort_step (Some c) r rows = Inr rows)
   \<and> filter_query_results dl [[(''v'', PNone)], [(''v'', PInt 5)], [(''v'', PInt 2)]]
        [(''_sort'', ''v'')]
       = Inr [[(''v'', PNone)], [(''v'', PInt 2)], [(''v'', PInt 5)]]
   \<and> filter_query_results dl [[(''v'', PNone)], [(''v'', PInt 5)], [(''v'', PInt 2)]]
        [(''_sort'', ''v''), (''_order'', ''desc'')]
       = Inr [[(''v'', PInt 5)], [(''v'', PInt 2)], [(''v'', PNone)]]
   \<and> filter_query_results dl [[(''v'', PNone)], [(''v'', PInt 5)], [(''v'', PInt 2)]]
        [(''_sort'', ''w'')]
       = Inr [[(''v'', PNone)], [(''v'', PInt 5)], [(''v'', PInt 2)]]"
proof -
  have c1: "null_at c elem \<longrightarrow> order_key_func (Some c) elem = Inr MinKey"
    by (simp add: null_at_def order_key_func_def dict_index_def dict_get_def)
  have c2: "list_all (int_or_null_at c) rows \<or> list_all (str_or_null_at c) rows \<longrightarrow>
        (\<exists>out. sort_step (Some c) False rows = Inr out \<and> mset out = mset rows
           \<and> out = filter (null_at c) out @ filter (\<lambda>elem. \<not> null_at c elem) out)
        \<and> (\<exists>out. sort_step (Some c) True rows = Inr out \<and> mset out = mset rows
           \<and> out = filter (\<lambda>elem. \<not> null_at c elem) out @ filter (null_at c) out)"
    using sort_step_nulls [of c rows False] sort_step_nulls [of c rows True] by auto
  have c3: "list_ex (\<lambda>elem. dict_get elem c = None) rows \<longrightarrow> sort_step (Some c) r rows = Inr rows"
    using sort_step_missing_column [of c rows r] by blast
  have c4: "filter_query_results dl [[(''v'', PNone)], [(''v'', PInt 5)], [(''v'', PInt 2)]]
        [(''_sort'', ''v'')]
       = Inr [[(''v'', PNone)], [(''v'', PInt 2)], [(''v'', PInt 5)]]"
  proof -
    have "args_get [(''_sort'', ''v'')] ''_limit'' = None" by code_simp
    moreover have "filter_query_results 0 [[(''v'', PNone)], [(''v'', PInt 5)], [(''v'', PInt 2)]]
        [(''_sort'', ''v'')]
       = Inr [[(''v'', PNone)], [(''v'', PInt 2)], [(''v'', PInt 5)]]"
      by code_simp
    ultimately show ?thesis using filter_query_results_no_limit by metis
  qed
  have c5: "filter_query_results dl [[(''v'', PNone)], [(''v'', PInt 5)], [(''v'', PInt 2)]]
        [(''_sort'', ''v''), (''_order'', ''desc'')]
       = Inr [[(''v'', PInt 5)], [(''v'', PInt 2)], [(''v'', PNone)]]"
  proof -
    have "args_get [(''_sort'', ''v''), (''_order'', ''desc'')] ''_limit'' = None" by code_simp
    moreover have "filter_query_results 0 [[(''v'', PNone)], [(''v'', PInt 5)], [(''v'', PInt 2)]]
        [(''_sort'', ''v''), (''_order'', ''desc'')]
       = Inr [[(''v'', PInt 5)], [(''v'', PInt 2)], [(''v'', PNone)]]"
      by code_simp
    ultimately show ?thesis using filter_query_results_no_limit by metis
  qed
  have c6: "filter_query_results dl [[(''v'', PNone)], [(''v'', PInt 5)], [(''v'', PInt 2)]]
        [(''_sort'', ''w'')]
       = Inr [[(''v'', PNone)], [(''v'', PInt 5)], [(''v'', PInt 2)]]"
  proof -
    have "args_get [(''_sort'', ''w'')] ''_limit'' = None" by code_simp
    moreover have "filter_query_results 0 [[(''v'', PNone)], [(''v'', PInt 5)], [(''v'', PInt 2)]]
        [(''_sort'', ''w'')]
       = Inr [[(''v'', PNone)], [(''v'', PInt 5)], [(''v'', PInt 2)]]"
      by code_simp
    ultimately show ?thesis using filter_query_results_no_limit by metis
  qed
  show ?thesis using c1 key_lt_MinKey [of k] c2 c3 c4 c5 c6 by blast
qed

theorem sort_nulls_contract_witness:
  "list_all (str_or_null_at ''v'')
      [[(''v'', PStr ''b'')], [(''v'', PNone), (''t'', PInt 1)], [(''v'', PStr ''a'')], [(''v'', PNone)]]
   \<and> (\<exists>out. sort_step (Some ''v'') True
          [[(''v'', PStr ''b'')], [(''v'', PNone), (''t'', PInt 1)], [(''v'', PStr ''a'')], [(''v'', PNone)]]
          = Inr out
        \<and> out = filter (\<lambda>elem. \<not> null_at ''v'' elem) out @ filter (null_at ''v'') out)
   \<and> sort_step (Some ''v'') True
        [[(''v'', PStr ''b'')], [(''v'', PNone), (''t'', PInt 1)], [(''v'', PStr ''a'')], [(''v'', PNone)]]
      = Inr [[(''v'', PStr ''b'')], [(''v'', PStr ''a'')], [(''v'', PNone), (''t'', PInt 1)], [(''v'', PNone)]]
   \<and> sort_step (Some ''t'') False
        [[(''v'', PStr ''b'')], [(''v'', PNone), (''t'', PInt 1)], [(''v'', PStr ''a'')], [(''v'', PNone)]]
      = Inr [[(''v'', PStr ''b'')], [(''v'', PNone), (''t'', PInt 1)], [(''v'', PStr ''a'')], [(''v'', PNone)]]"
proof -
  let ?rows = "[[(''v'', PStr ''b'')], [(''v'', PNone), (''t'', PInt 1)], [(''v'', PStr ''a'')], [(''v'', PNone)]]"
  have h1: "list_all (str_or_null_at ''v'') ?rows" by code_simp
  have h2: "list_ex (\<lambda>elem. dict_get elem ''t'' = None) ?rows" by code_simp
  have e: "sort_step (Some ''v'') True ?rows
      = Inr [[(''v'', PStr ''b'')], [(''v'', PStr ''a'')], [(''v'', PNone), (''t'', PInt 1)], [(''v'', PNone)]]"
    by code_simp
  note t1 = sort_nulls_contract [where c = "''v''" and rows = ?rows]
  note t2 = sort_nulls_contract [where c = "''t''" and rows = ?rows and r = False]
  have a: "\<exists>out. sort_step (Some ''v'') True ?rows = Inr out
        \<and> out = filter (\<lambda>elem. \<not> null_at ''v'' elem) out @ filter (null_at ''v'') out"
    using t1 h1 by blast
  have b: "sort_step (Some ''t'') False ?rows = Inr ?rows"
    using t2 h2 by blast
  show ?thesis using h1 a b e by blast
qed

lemma py_slice_all: "py_slice xs 0 (int (length xs)) = xs"
  by (simp add: py_slice_def slice_index_def)

lemma py_slice_nonneg:
  assumes "0 \<le> a" "0 \<le> n"
  shows "py_slice xs a (a + n) = take (nat n) (drop (nat a) xs)"
proof (cases "nat a \<le> length xs")
  case True
  then show ?thesis using assms
    by (auto simp: py_slice_def slice_index_def Let_def min_def nat_add_distrib)
next
  case False
  then show ?thesis using assms
    by (auto simp: py_slice_def slice_index_def Let_def min_def nat_add_distrib)
qed

lemma paginate_both:
  "l \<noteq> 0 \<Longrightarrow> p \<noteq> 0 \<Longrightarrow> paginate (Some l) (Some p) res = py_slice res (l * p) (l * p + l)"
  by (simp add: paginate_def truthy_def Let_def)

lemma paginate_limit_only:
  "l \<noteq> 0 \<Longrightarrow> pg = None \<or> pg = Some 0 \<Longrightarrow> paginate (Some l) pg res = py_slice res 0 l"
  by (auto simp: paginate_def truthy_def Let_def)

lemma paginate_no_limit:
  "lm = None \<or> lm = Some 0 \<Longrightarrow> paginate lm pg res = res"
  by (auto simp: paginate_def truthy_def Let_def py_slice_all)

lemma paginate_positive:
  assumes "0 < l" "0 \<le> p"
  shows "paginate (Some l) (Some p) res = take (nat l) (drop (nat (l * p)) res)"
proof (cases "p = 0")
  case True
  then show ?thesis
    using assms paginate_limit_only [of l "Some p" res] py_slice_nonneg [of 0 l res] by simp
next
  case False
  then show ?thesis
    using assms paginate_both [of l p res] py_slice_nonneg [of "l * p" l res] by simp
qed

lemma filter_query_results_steps:
  "filter_query_results dl data qs =
     (case sort_step (args_get qs ''_sort'') (args_get qs ''_order'' = Some ''desc'')
             (filter (row_matches qs) data) of
        Inl e \<Rightarrow> Inl e
      | Inr res \<Rightarrow> Inr (paginate (int_arg dl qs ''_limit'') (int_arg dl qs ''_page'') res))"
  by (simp add: filter_query_results_def Let_def filter_step_row_matches)

text \<open>
  Claim C5, as amended. \<open>filter_query_results\<close> returns the page \<open>paginate limit page\<close>
  of the filtered and sorted rows, where \<open>limit\<close> and \<open>page\<close> are \<open>_limit\<close> and \<open>_page\<close>
  read by \<open>int\<close>, and unset when absent or not numeric (no error). When \<open>_limit\<close> is a
  positive integer \<open>l\<close> and \<open>_page\<close> an integer \<open>p\<close> that is not negative, the page is the
  rows at the positions from \<open>l*p\<close> up to, not including, \<open>l*p + l\<close>. When \<open>_limit\<close> is a
  positive integer and \<open>_page\<close> is unset or zero, the page is the first \<open>l\<close> rows. When
  \<open>_limit\<close> is unset or zero, all rows are returned.
\<close>

theorem pagination_contract:
  "filter_query_results dl data qs =
     (case sort_step (args_get qs ''_sort'') (args_get qs ''_order'' = Some ''desc'')
             (filter (row_matches qs) data) of
        Inl e \<Rightarrow> Inl e
      | Inr res \<Rightarrow> Inr (paginate (int_arg dl qs ''_limit'') (int_arg dl qs ''_page'') res))
   \<and> (0 < l \<and> 0 \<le> p \<longrightarrow> paginate (Some l) (Some p) res = take (nat l) (drop (nat (l * p)) res))
   \<and> (0 < l \<and> (pg = None \<or> pg = Some 0) \<longrightarrow> paginate (Some l) pg res = take (nat l) res)
   \<and> (lm = None \<or> lm = Some 0 \<longrightarrow> paginate lm pg res = res)
   \<and> (args_get qs name = None \<or> (\<exists>s. args_get qs name = Some s \<and> py_int dl s = None)
        \<longrightarrow> int_arg dl qs name = None)
   \<and> (\<forall>s i. args_get qs name = Some s \<and> py_int dl s = Some i \<longrightarrow> int_arg dl qs name = Some i)"
proof -
  have c3: "0 < l \<and> 0 \<le> p \<longrightarrow> paginate (Some l) (Some p) res = take (nat l) (drop (nat (l * p)) res)"
    using paginate_positive by blast
  have c5: "0 < l \<and> (pg = None \<or> pg = Some 0) \<longrightarrow> paginate (Some l) pg res = take (nat l) res"
    using paginate_limit_only [of l pg res] py_slice_nonneg [of 0 l res] by auto
  have c6: "lm = None \<or> lm = Some 0 \<longrightarrow> paginate lm pg res = res"
    using paginate_no_limit by blast
  have c7: "args_get qs name = None \<or> (\<exists>s. args_get qs name = Some s \<and> py_int dl s = None)
        \<longrightarrow> int_arg dl qs name = None"
    by (auto simp: int_arg_def)
  have c8: "\<forall>s i. args_get qs name = Some s \<and> py_int dl s = Some i \<longrightarrow> int_arg dl qs name = Some i"
    by (auto simp: int_arg_def)
  show ?thesis using filter_query_results_steps [of dl data qs] c3 c5 c6 c7 c8 by blast
qed

text \<open>
  Claim C5 as stated fails for \<open>_limit=0\<close>: the limit is given and parses as an integer,
  the slice from 0 up to 0 is empty, and all rows are returned.
\<close>

theorem pagination_zero_limit_counterexample:
  "int_arg 4300 [(''_limit'', ''0'')] ''_limit'' = Some 0
   \<and> int_arg 4300 [(''_limit'', ''0'')] ''_page'' = None
   \<and> filter_query_results 4300 [[(''v'', PInt 1)], [(''v'', PInt 2)], [(''v'', PInt 3)]]
        [(''_limit'', ''0'')]
      = Inr [[(''v'', PInt 1)], [(''v'', PInt 2)], [(''v'', PInt 3)]]"
  by code_simp

theorem pagination_contract_witness:
  "paginate (Some 3) (Some 1) [0, 1, 2, 3, 4, 5, 6, 7, 8, 9 :: nat] = [3, 4, 5]
   \<and> paginate (Some 3) None [0, 1, 2, 3, 4, 5, 6, 7, 8, 9 :: nat] = [0, 1, 2]
   \<and> paginate None None [0, 1, 2, 3, 4, 5, 6, 7, 8, 9 :: nat] = [0, 1, 2, 3, 4, 5, 6, 7, 8, 9]
   \<and> int_arg 4300 [(''_limit'', ''abc''), (''_page'', ''1'')] ''_limit'' = None
   \<and> int_arg 4300 [(''_limit'', ''abc''), (''_page'', ''1'')] ''_page'' = Some 1"
proof -
  let ?rows = "[0, 1, 2, 3, 4, 5, 6, 7, 8, 9 :: nat]"
  let ?qs = "[(''_limit'', ''abc''), (''_page'', ''1'')]"
  note t1 = pagination_contract [where l = 3 and p = 1 and res = ?rows and pg = None and lm = None]
  note t2 = pagination_contract [where qs = ?qs and name = "''_limit''" and dl = 4300]
  note t3 = pagination_contract [where qs = ?qs and name = "''_page''" and dl = 4300]
  have h1: "args_get ?qs ''_limit'' = Some ''abc'' \<and> py_int 4300 ''abc'' = None" by code_simp
  have h2: "args_get ?qs ''_page'' = Some ''1'' \<and> py_int 4300 ''1'' = Some 1" by code_simp
  have pos: "(0::int) < 3 \<and> (0::int) \<le> 1" by simp
  have a: "paginate (Some 3) (Some 1) ?rows = take (nat 3) (drop (nat (3 * 1)) ?rows)"
    using t1 pos by blast
  have b: "paginate (Some 3) None ?rows = take (nat 3) ?rows" using t1 pos by blast
  have c: "paginate None None ?rows = ?rows" using t1 by blast
  have d: "int_arg 4300 ?qs ''_limit'' = None" using t2 h1 by blast
  have e: "int_arg 4300 ?qs ''_page'' = Some 1" using t3 h2 by blast
  show ?thesis using a b c d e by simp
qed

section \<open>Properties of the handler of a read\<close>

lemma opt_slash_end_iff:
  "opt_slash_end s \<longleftrightarrow> s = [] \<or> s = [CHR 0x0A] \<or> s = ''/'' \<or> s = [CHR ''/'', CHR 0x0A]"
  by (cases s) (auto simp: opt_slash_end_def at_end_def)

lemma takeWhile_all_append:
  "list_all P w \<Longrightarrow> takeWhile P (w @ t) = w @ takeWhile P t"
  by (induction w) auto

lemma word_then_end_iff:
  "word_then_end s \<longleftrightarrow>
     (\<exists>w t. s = w @ t \<and> w \<noteq> [] \<and> list_all is_word w \<and> opt_slash_end t)"
proof
  assume "word_then_end s"
  then obtain n where n: "1 \<le> n" "n \<le> length (takeWhile is_word s)" "opt_slash_end (drop n s)"
    by (auto simp: word_then_end_def list_ex_iff)
  have "take n s = take n (takeWhile is_word s)"
    using n(2) by (metis append_eq_conv_conj takeWhile_dropWhile_id min.absorb2 take_take min.commute)
  then have "list_all is_word (take n s)"
    by (metis list_all_iff in_set_takeD set_takeWhileD)
  moreover have "take n s \<noteq> []"
    using n by (cases s) auto
  moreover have "s = take n s @ drop n s" by simp
  ultimately show "\<exists>w t. s = w @ t \<and> w \<noteq> [] \<and> list_all is_word w \<and> opt_slash_end t"
    using n(3) by blast
next
  assume "\<exists>w t. s = w @ t \<and> w \<noteq> [] \<and> list_all is_word w \<and> opt_slash_end t"
  then obtain w t where h: "s = w @ t" "w \<noteq> []" "list_all is_word w" "opt_slash_end t"
    by blast
  have "length w \<le> length (takeWhile is_word s)"
    using h(1,3) by (simp add: takeWhile_all_append)
  moreover have "1 \<le> length w" using h(2) by (cases w) auto
  moreover have "opt_slash_end (drop (length w) s)" using h(1,4) by simp
  ultimately show "word_then_end s"
    unfolding word_then_end_def list_ex_iff by (intro bexI [of _ "length w"]) auto
qed

lemma param_here_iff:
  "param_here s \<longleftrightarrow>
     (\<exists>w t. s = ''$'' @ w @ t \<and> w \<noteq> [] \<and> list_all is_word w \<and> opt_slash_end t)"
  by (cases s) (auto simp: param_here_def word_then_end_iff)

lemma RE_QUERY_PARAM_match_iff:
  "RE_QUERY_PARAM_match r \<longleftrightarrow>
     (\<exists>pre t. r = pre @ t \<and> CHR 0x0A \<notin> set pre \<and> param_here t)"
proof (induction r)
  case Nil
  show ?case by simp
next
  case (Cons c cs)
  show ?case
  proof
    assume "RE_QUERY_PARAM_match (c # cs)"
    then consider "param_here (c # cs)" | "c \<noteq> CHR 0x0A" "RE_QUERY_PARAM_match cs" by auto
    then show "\<exists>pre t. c # cs = pre @ t \<and> CHR 0x0A \<notin> set pre \<and> param_here t"
    proof cases
      case 1
      then show ?thesis by (intro exI [of _ "[]"] exI [of _ "c # cs"]) simp
    next
      case 2
      then obtain pre t where "cs = pre @ t" "CHR 0x0A \<notin> set pre" "param_here t"
        using Cons by blast
      then show ?thesis using 2(1) by (intro exI [of _ "c # pre"] exI [of _ t]) simp
    qed
  next
    assume "\<exists>pre t. c # cs = pre @ t \<and> CHR 0x0A \<notin> set pre \<and> param_here t"
    then obtain pre t where h: "c # cs = pre @ t" "CHR 0x0A \<notin> set pre" "param_here t" by blast
    show "RE_QUERY_PARAM_match (c # cs)"
    proof (cases pre)
      case Nil
      then have "t = c # cs" using h(1) by simp
      then show ?thesis using h(3) by simp
    next
      case (Cons a pre')
      then have "cs = pre' @ t" "CHR 0x0A \<notin> set pre'" "c \<noteq> CHR 0x0A" using h by auto
      then show ?thesis using h(3) Cons.IH by auto
    qed
  qed
qed

lemma RE_QUERY_PARAM_single_line:
  assumes "CHR 0x0A \<notin> set route"
  shows "RE_QUERY_PARAM_match route \<longleftrightarrow> ends_in_placeholder route"
proof
  assume "RE_QUERY_PARAM_match route"
  then obtain pre w t where h: "route = pre @ ''$'' @ w @ t" "w \<noteq> []" "list_all is_word w"
      "opt_slash_end t"
    unfolding RE_QUERY_PARAM_match_iff param_here_iff by blast
  have "CHR 0x0A \<notin> set t" using assms h(1) by auto
  then have "t = [] \<or> t = ''/''" using h(4) unfolding opt_slash_end_iff by auto
  then show "ends_in_placeholder route"
    unfolding ends_in_placeholder_def using h by auto
next
  assume "ends_in_placeholder route"
  then obtain pre w where h: "w \<noteq> []" "list_all is_word w"
      "route = pre @ ''$'' @ w \<or> route = pre @ ''$'' @ w @ ''/''"
    unfolding ends_in_placeholder_def by blast
  then obtain t where t: "route = pre @ ''$'' @ w @ t" "opt_slash_end t"
    unfolding opt_slash_end_iff by auto
  have "CHR 0x0A \<notin> set pre" using assms t(1) by auto
  then show "RE_QUERY_PARAM_match route"
    unfolding RE_QUERY_PARAM_match_iff param_here_iff using t h(1,2) by blast
qed


lemma route_handler_SELECT:
  assumes "ep_sql_op ep = SELECT"
  shows "route_handler env ep req =
     (case (if ep_auth_required ep
            then check_session env (get_logged_user env req) (ep_allowed_roles ep)
            else Inr ()) of
        Inl e \<Rightarrow> (Inl e, [])
      | Inr _ \<Rightarrow>
        (case (if ep_logged_user ep
               then (case get_current_user_id env (get_logged_user env req) of
                       Inl e \<Rightarrow> Inl e
                     | Inr user_id \<Rightarrow> Inr (dict_set (kwargs req) ''loggedId'' user_id))
               else Inr (kwargs req)) of
           Inl e \<Rightarrow> (Inl e, [])
         | Inr d \<Rightarrow>
           (case dict_tuple d (ep_sql_params ep) of
              Inl e \<Rightarrow> (Inl e, [])
            | Inr ps \<Rightarrow>
              (case api_safe_query env (silence_to_mysql env (ep_sql ep)) ps of
                 Inl e \<Rightarrow> (Inl e, [Query (silence_to_mysql env (ep_sql ep)) ps])
               | Inr res \<Rightarrow>
                 (case filter_query_results (int_max_str_digits env) res (args req) of
                    Inl e \<Rightarrow> (Inl e, [Query (silence_to_mysql env (ep_sql ep)) ps])
                  | Inr res \<Rightarrow>
                      if RE_QUERY_PARAM_match (ep_route ep) \<and> res = []
                      then (Inl (HTTPError 404 ''Not found''),
                            [Query (silence_to_mysql env (ep_sql ep)) ps])
                      else (Inr (Rows res, 200),
                            [Query (silence_to_mysql env (ep_sql ep)) ps]))))))"
  unfolding route_handler_def Let_def assms simp_thms(6) if_True by (rule TrueI)

lemma route_handler_select_empty:
  assumes "ep_sql_op ep = SELECT"
    and "snd (route_handler env ep req) = [Query q ps]"
    and "api_safe_query env q ps = Inr res"
    and "filter_query_results (int_max_str_digits env) res (args req) = Inr []"
  shows "fst (route_handler env ep req) =
           (if RE_QUERY_PARAM_match (ep_route ep) then Inl (HTTPError 404 ''Not found'')
            else Inr (Rows [], 200))"
  using assms(2-4) unfolding route_handler_SELECT [OF assms(1)]
  by (auto split: sum.splits if_splits)

lemma route_handler_select_never_empty:
  assumes "ep_sql_op ep = SELECT" and "RE_QUERY_PARAM_match (ep_route ep)"
  shows "fst (route_handler env ep req) \<noteq> Inr (Rows [], status)"
  using assms(2) unfolding route_handler_SELECT [OF assms(1)]
  by (auto split: sum.splits if_splits)

text \<open>
  For a route pattern without a line feed, \<open>RE_QUERY_PARAM\<close> matches exactly when the
  pattern ends in a placeholder, optionally followed by a slash; a SELECT endpoint with
  such a pattern whose query ran and gave no row after \<open>filter_query_results\<close> raises
  \<open>HTTPError 404\<close> when the pattern ends in a placeholder and returns the empty list with
  status 200 otherwise.
\<close>

lemma not_found_single_line:
  assumes "CHR 0x0A \<notin> set (ep_route ep)" and "ep_sql_op ep = SELECT"
  shows "RE_QUERY_PARAM_match (ep_route ep) = ends_in_placeholder (ep_route ep)"
    and "snd (route_handler env ep req) = [Query q ps] \<Longrightarrow> api_safe_query env q ps = Inr res \<Longrightarrow>
         filter_query_results (int_max_str_digits env) res (args req) = Inr [] \<Longrightarrow>
         fst (route_handler env ep req) =
           (if ends_in_placeholder (ep_route ep) then Inl (HTTPError 404 ''Not found'')
            else Inr (Rows [], 200))"
    and "ends_in_placeholder (ep_route ep) \<Longrightarrow> fst (route_handler env ep req) \<noteq> Inr (Rows [], 200)"
proof -
  show m: "RE_QUERY_PARAM_match (ep_route ep) = ends_in_placeholder (ep_route ep)"
    using assms(1) by (rule RE_QUERY_PARAM_single_line)
  show "snd (route_handler env ep req) = [Query q ps] \<Longrightarrow> api_safe_query env q ps = Inr res \<Longrightarrow>
         filter_query_results (int_max_str_digits env) res (args req) = Inr [] \<Longrightarrow>
         fst (route_handler env ep req) =
           (if ends_in_placeholder (ep_route ep) then Inl (HTTPError 404 ''Not found'')
            else Inr (Rows [], 200))"
    using route_handler_select_empty [of ep env req q ps res] assms(2) m by simp
  show "ends_in_placeholder (ep_route ep) \<Longrightarrow> fst (route_handler env ep req) \<noteq> Inr (Rows [], 200)"
    using route_handler_select_never_empty [of ep env req 200] assms(2) m by simp
qed

text \<open>
  Claim C7. The code does not do what the claim says for a route pattern with a line feed
  before its last placeholder; the comment in \<open>route_handler\<close> asks for a 404 whenever the
  URL ends with a parameter and there are no results. The route pattern \<open>/a\<close>, line feed,
  \<open>/$id\<close> ends in a placeholder; \<open>setup_endpoint\<close> registers a SELECT endpoint for it; the
  data layer finds no row; and the handler returns the empty list with status 200, since
  \<open>.\<close> in \<open>RE_QUERY_PARAM\<close> does not match the line feed.
\<close>

theorem not_found_line_feed_divergence:
  "ends_in_placeholder (''/a'' @ [CHR 0x0A] @ ''/$id'')
   \<and> (case setup_endpoint ''/api'' leading_keyword_op flask_add_url_rule
              (''/a'' @ [CHR 0x0A] @ ''/$id'') ''get'' ''SELECT * FROM users WHERE id = $id''
              False (RoleList [PStr ''*'']) None [] new_server of
         Returned st \<Rightarrow> map view_func (url_map st)
       | _ \<Rightarrow> [])
      = [example_endpoint\<lparr>ep_auth_required := False, ep_allowed_roles := [PStr ''*''],
                          ep_route := ''/a'' @ [CHR 0x0A] @ ''/$id''\<rparr>]
   \<and> api_safe_query example_env ''SELECT * FROM users WHERE id = $id'' [PStr ''3''] = Inr []
   \<and> route_handler example_env
        (example_endpoint\<lparr>ep_auth_required := False, ep_allowed_roles := [PStr ''*''],
                          ep_route := ''/a'' @ [CHR 0x0A] @ ''/$id''\<rparr>)
        example_request
      = (Inr (Rows [], 200), [Query ''SELECT * FROM users WHERE id = $id'' [PStr ''3'']])"
proof -
  have "ends_in_placeholder (''/a'' @ [CHR 0x0A] @ ''/$id'')"
    unfolding ends_in_placeholder_def
    by (intro exI [of _ "''/a'' @ [CHR 0x0A] @ ''/''"] exI [of _ "''id''"])
       (simp add: is_word_def lower_letters_def upper_letters_def digit_chars_def)
  moreover have "(case setup_endpoint ''/api'' leading_keyword_op flask_add_url_rule
              (''/a'' @ [CHR 0x0A] @ ''/$id'') ''get'' ''SELECT * FROM users WHERE id = $id''
              False (RoleList [PStr ''*'']) None [] new_server of
         Returned st \<Rightarrow> map view_func (url_map st)
       | _ \<Rightarrow> [])
      = [example_endpoint\<lparr>ep_auth_required := False, ep_allowed_roles := [PStr ''*''],
                          ep_route := ''/a'' @ [CHR 0x0A] @ ''/$id''\<rparr>]"
    by code_simp
  moreover have "api_safe_query example_env ''SELECT * FROM users WHERE id = $id'' [PStr ''3''] = Inr []
   \<and> route_handler example_env
        (example_endpoint\<lparr>ep_auth_required := False, ep_allowed_roles := [PStr ''*''],
                          ep_route := ''/a'' @ [CHR 0x0A] @ ''/$id''\<rparr>)
        example_request
      = (Inr (Rows [], 200), [Query ''SELECT * FROM users WHERE id = $id'' [PStr ''3'']])"
    by code_simp
  ultimately show ?thesis by blast
qed

text \<open>
  So the request for the endpoint of that route pattern is not answered with the 404 of
  the comment, and no error at all is raised.
\<close>

theorem not_found_line_feed_divergence_witness:
  "fst (route_handler example_env
        (example_endpoint\<lparr>ep_auth_required := False, ep_allowed_roles := [PStr ''*''],
                          ep_route := ''/a'' @ [CHR 0x0A] @ ''/$id''\<rparr>)
        example_request) \<noteq> Inl (HTTPError 404 ''Not found'')
   \<and> (\<exists>rows. fst (route_handler example_env
        (example_endpoint\<lparr>ep_auth_required := False, ep_allowed_roles := [PStr ''*''],
                          ep_route := ''/a'' @ [CHR 0x0A] @ ''/$id''\<rparr>)
        example_request) = Inr (rows, 200))"
proof -
  have "route_handler example_env
        (example_endpoint\<lparr>ep_auth_required := False, ep_allowed_roles := [PStr ''*''],
                          ep_route := ''/a'' @ [CHR 0x0A] @ ''/$id''\<rparr>)
        example_request
      = (Inr (Rows [], 200), [Query ''SELECT * FROM users WHERE id = $id'' [PStr ''3'']])"
    using not_found_line_feed_divergence by blast
  then show ?thesis by simp
qed

end
